theory Spec2Isabelle
  imports Main
begin

section \<open>The output tree\<close>

text \<open>
  The renderer of \<^verbatim>\<open>src/ui/render.ts\<close> writes into a DOM element. A node of
  the output tree is a text node, an element the renderer or the host creates, with its tag,
  class list, attributes and child nodes, or an element that existed before the call: an HTML
  value, which line 113 attaches as it is. Such an element is known by its identity, a DOM
  node being in one place at a time; what it holds is not the renderer's concern. An element
  handed to the renderer (\<^verbatim>\<open>container\<close>) is represented by the list of its child
  nodes, the only part of it the renderer reads or changes. Tags are local names in lower
  case.
\<close>

datatype node =
    TextNode string
  | Element string "string list" "(string \<times> string) list" "node list"
  | HtmlElement nat

fun isElement :: "node \<Rightarrow> bool" where
  "isElement (Element t cls as ns) = True"
| "isElement (TextNode s) = False"
| "isElement (HtmlElement i) = True"

text \<open>
  The paragraphs the renderer looks for are those the host has just rendered, which are new
  elements.
\<close>

fun isParagraph :: "node \<Rightarrow> bool" where
  "isParagraph (Element t cls as ns) = (t = ''p'')"
| "isParagraph (TextNode s) = False"
| "isParagraph (HtmlElement i) = False"

fun childNodes :: "node \<Rightarrow> node list" where
  "childNodes (Element t cls as ns) = ns"
| "childNodes (TextNode s) = []"
| "childNodes (HtmlElement i) = []"

text \<open>\<^verbatim>\<open>el.children\<close>: the child elements only; \<^verbatim>\<open>el.childNodes\<close> is the whole list.\<close>

definition children :: "node list \<Rightarrow> node list" where
  "children el = filter isElement el"

text \<open>\<^verbatim>\<open>el.querySelector(":scope > p")\<close>: the first child element that is a paragraph.\<close>

definition querySelector_p :: "node list \<Rightarrow> node option" where
  "querySelector_p el = find isParagraph el"

text \<open>\<^verbatim>\<open>el.appendText(s)\<close> appends a new text node, also for the empty string.\<close>

definition appendText :: "node list \<Rightarrow> string \<Rightarrow> node list" where
  "appendText el s = el @ [TextNode s]"

text \<open>
  \<^verbatim>\<open>el.appendChild(n)\<close> for a node \<open>n\<close> that is in no tree: one that has just
  been created, or one that has been taken out of the place it was in (\<open>detachAll\<close>
  below).
\<close>

definition appendChild :: "node list \<Rightarrow> node \<Rightarrow> node list" where
  "appendChild el n = el @ [n]"

text \<open>
  \<^verbatim>\<open>el.createEl(tag, {cls})\<close> appends a new, empty element and returns it; the caller
  then fills it. In the model the filled element is attached where it was created.
\<close>

definition createEl :: "string \<Rightarrow> string list \<Rightarrow> node list \<Rightarrow> node" where
  "createEl t cls ns = Element t cls [] ns"

definition createSpan :: "node list \<Rightarrow> node" where
  "createSpan ns = createEl ''span'' [] ns"

text \<open>
  \<^verbatim>\<open>el.textContent = s\<close> on a new element: one text node, and none for the empty
  string.
\<close>

definition setTextContent :: "string \<Rightarrow> node list" where
  "setTextContent s = (if s = [] then [] else [TextNode s])"

text \<open>
  The elements with the identities \<open>ids\<close> taken out of a tree, wherever they are:
  \<^verbatim>\<open>appendChild\<close> on a node that has a parent removes it from that parent first.
\<close>

fun detach :: "nat list \<Rightarrow> node \<Rightarrow> node list" where
  "detach ids (TextNode s) = [TextNode s]"
| "detach ids (Element t cls as ns) = [Element t cls as (concat (map (detach ids) ns))]"
| "detach ids (HtmlElement i) = (if i \<in> set ids then [] else [HtmlElement i])"

definition detachAll :: "nat list \<Rightarrow> node list \<Rightarrow> node list" where
  "detachAll ids ns = concat (map (detach ids) ns)"

text \<open>The identities of the elements from before the call that a tree holds.\<close>

fun htmlElements :: "node \<Rightarrow> nat set" where
  "htmlElements (TextNode s) = {}"
| "htmlElements (Element t cls as ns) = (\<Union>n \<in> set ns. htmlElements n)"
| "htmlElements (HtmlElement i) = {i}"

definition htmlElementsIn :: "node list \<Rightarrow> nat set" where
  "htmlElementsIn ns = (\<Union>n \<in> set ns. htmlElements n)"

section \<open>Outcomes of a call\<close>

text \<open>
  A call either returns or throws; in both cases the element it was writing into is left
  in some state, which the outcome carries. The exceptions of the model are those of the
  host's markup renderer, the \<^verbatim>\<open>TypeError\<close> of \<^verbatim>\<open>JSON.stringify\<close> on a value it
  cannot serialize (a BigInt) and the \<^verbatim>\<open>HierarchyRequestError\<close> of
  \<^verbatim>\<open>appendChild\<close> on an element that contains the one it is appended to. A call that
  never returns has no outcome (\<open>None\<close> below).
\<close>

datatype exn = HostError string | TypeError | HierarchyRequestError

datatype result =
    Returned "node list"
  | Threw exn "node list"

fun andThen :: "result option \<Rightarrow> (node list \<Rightarrow> result option) \<Rightarrow> result option" where
  "andThen None f = None"
| "andThen (Some (Threw e el)) f = Some (Threw e el)"
| "andThen (Some (Returned el)) f = f el"

text \<open>
  A call of \<^verbatim>\<open>renderValue\<close> also changes the tree outside its container when it attaches
  an element from before the call that sits there: the element leaves that place. The model
  passes the container down and up, so a call reports, next to its outcome, the identities of
  the elements it attached, in order; its callers take them out of what they hold.
\<close>

type_synonym outcome = "result \<times> nat list"

fun andThenM :: "outcome option \<Rightarrow> (node list \<Rightarrow> outcome option) \<Rightarrow> outcome option" where
  "andThenM None f = None"
| "andThenM (Some (Threw e el, moved)) f = Some (Threw e el, moved)"
| "andThenM (Some (Returned el, moved)) f =
     (case f el of
        None \<Rightarrow> None
      | Some (r, moved') \<Rightarrow> Some (r, moved @ moved'))"

text \<open>
  The outcome of filling a child element created in \<open>container\<close>, seen from the container:
  \<open>el\<close> is the new element as a function of its child nodes.
\<close>

fun inside :: "node list \<Rightarrow> (node list \<Rightarrow> node) \<Rightarrow> outcome option \<Rightarrow> outcome option" where
  "inside container el None = None"
| "inside container el (Some (Returned ns, moved)) =
     Some (Returned (appendChild (detachAll moved container) (el ns)), moved)"
| "inside container el (Some (Threw e ns, moved)) =
     Some (Threw e (appendChild (detachAll moved container) (el ns)), moved)"

section \<open>Values, settings and the host\<close>

datatype Component = InlineFieldLivePreviewComponent | OtherComponent

datatype ValueRenderContext = CtxRoot | CtxList

record QuerySettings =
  maxRecursiveRenderDepth :: int
  renderNullAs :: string

text \<open>
  A \<^verbatim>\<open>Literal\<close> as the predicates of \<^verbatim>\<open>Values\<close> classify it. Dates, durations,
  numbers, links and unclassified values are host values of a type \<open>'v\<close> the renderer only
  hands to host functions. An HTML value is an element of the document, given by its
  identity. Widgets, arrays and objects are JavaScript objects with identity: a value of these
  kinds is a reference \<open>Ref a\<close> into a heap, so that a composite can contain itself.
\<close>

type_synonym addr = nat

datatype 'v Literal =
    Null
  | Date 'v
  | Duration 'v
  | String string
  | Boolean bool
  | Number 'v
  | Link 'v
  | Html nat
  | Function
  | Ref addr
  | Unclassified 'v

text \<open>
  An object carries the value of \<^verbatim>\<open>field?.constructor?.name\<close> (\<open>None\<close> when
  undefined) and its own entries in enumeration order.
\<close>

datatype 'v HeapObject =
    ListPair "'v Literal" "'v Literal"
  | ExternalLink string "string option"
  | UnknownWidget string
  | Array "'v Literal list"
  | DataArray "'v Literal list"
  | Object "string option" "(string \<times> 'v Literal) list"

type_synonym 'v Heap = "addr \<Rightarrow> 'v HeapObject"

text \<open>
  What the renderer calls and this file does not define:
  \<^verbatim>\<open>MarkdownRenderer.renderMarkdown(markdown, el, sourcePath, component)\<close>, which
  fills \<^verbatim>\<open>el\<close> with new nodes or throws, the formatters of dates and durations, the
  locale, and the string conversions of JavaScript; \<^verbatim>\<open>JSON.stringify\<close> gives \<open>None\<close>
  where it throws. \<open>containsContainer i\<close> is a fact of the document: the element \<open>i\<close>
  is the container of the outermost call or one of its ancestors. The elements the renderer
  writes into are that container and new elements below it, and no call moves it or an
  ancestor of it, so the same elements contain the container of every nested call, at every
  moment.
\<close>

record 'v Host =
  renderMarkdown :: "string \<Rightarrow> node list \<Rightarrow> string \<Rightarrow> Component \<Rightarrow> result"
  renderMinimalDate :: "'v \<Rightarrow> QuerySettings \<Rightarrow> string \<Rightarrow> string"
  renderMinimalDuration :: "'v \<Rightarrow> string"
  currentLocale :: string
  numberToString :: "'v \<Rightarrow> string"
  markdown :: "'v \<Rightarrow> string"
  stringify :: "'v \<Rightarrow> string option"
  containsContainer :: "nat \<Rightarrow> bool"

text \<open>JavaScript truthiness of an optional string: undefined and the empty string are falsy.\<close>

fun truthy :: "string option \<Rightarrow> bool" where
  "truthy None = False"
| "truthy (Some s) = (s \<noteq> [])"

section \<open>renderCompactMarkdown\<close>

text \<open>
  Lines 10 to 66 of \<^verbatim>\<open>src/ui/render.ts\<close>. First the loop of lines 60 to 62,
  \<^verbatim>\<open>while (paragraph.firstChild) subcontainer.appendChild(paragraph.firstChild)\<close>: the
  first argument is what is left in the paragraph, the second the nodes of the subcontainer
  that follow the paragraph.
\<close>

fun moveChildren :: "node list \<Rightarrow> node list \<Rightarrow> node list" where
  "moveChildren [] following = following"
| "moveChildren (firstChild # rest) following = moveChildren rest (following @ [firstChild])"

text \<open>
  The loop, then \<^verbatim>\<open>subcontainer.removeChild(paragraph)\<close> (line 63). The paragraph is
  the first child that \<^verbatim>\<open>querySelector(":scope > p")\<close> finds.
\<close>

definition hoistParagraph :: "node list \<Rightarrow> node list" where
  "hoistParagraph subcontainer =
     (case dropWhile (\<lambda>n. \<not> isParagraph n) subcontainer of
        [] \<Rightarrow> subcontainer
      | paragraph # following \<Rightarrow>
          takeWhile (\<lambda>n. \<not> isParagraph n) subcontainer
            @ moveChildren (childNodes paragraph) following)"

text \<open>
  The first branch is the live preview's (lines 17 to 53): the host renders into a detached
  \<^verbatim>\<open>span\<close> and the container's children are replaced. The second (lines 54 to 65)
  appends a \<^verbatim>\<open>span\<close> to the container and renders into it.
\<close>

definition renderCompactMarkdown ::
  "'v Host \<Rightarrow> string \<Rightarrow> node list \<Rightarrow> string \<Rightarrow> Component \<Rightarrow> result" where
  "renderCompactMarkdown H md container sourcePath component =
     (if component = InlineFieldLivePreviewComponent then
        (case renderMarkdown H md [] sourcePath component of
           Threw e tmpContainer \<Rightarrow> Threw e container
         | Returned tmpContainer \<Rightarrow>
             (case querySelector_p tmpContainer of
                Some paragraph \<Rightarrow>
                  if length tmpContainer = 1 then Returned (childNodes paragraph)
                  else Returned tmpContainer
              | None \<Rightarrow> Returned tmpContainer))
      else
        (case renderMarkdown H md [] sourcePath component of
           Threw e subcontainer \<Rightarrow> Threw e (appendChild container (createSpan subcontainer))
         | Returned subcontainer \<Rightarrow>
             (case querySelector_p subcontainer of
                Some paragraph \<Rightarrow>
                  if length (children subcontainer) = 1
                  then Returned (appendChild container (createSpan (hoistParagraph subcontainer)))
                  else Returned (appendChild container (createSpan subcontainer))
              | None \<Rightarrow> Returned (appendChild container (createSpan subcontainer)))))"

section \<open>renderValue\<close>

text \<open>
  The four loops over the children of a composite (lines 141 to 144, 153 to 158, 169 to 173
  and 182 to 188). \<open>rv\<close> is the recursive call
  \<^verbatim>\<open>renderValue(child, el, originFile, component, settings, expandList, "list", depth + 1)\<close>
  as a function of the child and the element; the last argument is the element the loop
  fills (the \<^verbatim>\<open>ul\<close> or the \<^verbatim>\<open>span\<close>).
\<close>

fun renderArrayExpanded ::
  "('v Literal \<Rightarrow> node list \<Rightarrow> outcome option) \<Rightarrow> 'v Literal list \<Rightarrow> node list \<Rightarrow> outcome option" where
  "renderArrayExpanded rv [] ul = Some (Returned ul, [])"
| "renderArrayExpanded rv (child # rest) ul =
     andThenM
       (inside ul (createEl ''li'' [''dataview-result-list-li'']) (rv child []))
       (renderArrayExpanded rv rest)"

fun renderArrayCompact ::
  "('v Literal \<Rightarrow> node list \<Rightarrow> outcome option) \<Rightarrow> bool \<Rightarrow> 'v Literal list \<Rightarrow> node list \<Rightarrow> outcome option" where
  "renderArrayCompact rv first [] span = Some (Returned span, [])"
| "renderArrayCompact rv first (val # rest) span =
     andThenM
       (rv val (if first then span else appendText span '', ''))
       (renderArrayCompact rv False rest)"

fun renderObjectExpanded ::
  "('v Literal \<Rightarrow> node list \<Rightarrow> outcome option) \<Rightarrow> (string \<times> 'v Literal) list \<Rightarrow> node list \<Rightarrow> outcome option" where
  "renderObjectExpanded rv [] ul = Some (Returned ul, [])"
| "renderObjectExpanded rv ((key, val) # rest) ul =
     andThenM
       (inside ul (createEl ''li'' [''dataview'', ''dataview-li'', ''dataview-result-object-li''])
          (rv val (appendText [] (key @ '': ''))))
       (renderObjectExpanded rv rest)"

fun renderObjectCompact ::
  "('v Literal \<Rightarrow> node list \<Rightarrow> outcome option) \<Rightarrow> bool \<Rightarrow> (string \<times> 'v Literal) list \<Rightarrow> node list \<Rightarrow> outcome option" where
  "renderObjectCompact rv first [] span = Some (Returned span, [])"
| "renderObjectCompact rv first ((key, val) # rest) span =
     andThenM
       (rv val (appendText (if first then span else appendText span '', '') (key @ '': '')))
       (renderObjectCompact rv False rest)"

text \<open>The branch of \<^verbatim>\<open>renderValue\<close> for arrays and data arrays (lines 132 to 159).\<close>

definition renderArray ::
  "('v Literal \<Rightarrow> node list \<Rightarrow> outcome option) \<Rightarrow> 'v Literal list \<Rightarrow> node list \<Rightarrow> bool
     \<Rightarrow> ValueRenderContext \<Rightarrow> outcome option" where
  "renderArray rv field container expandList context =
     (if expandList then
        inside container
          (createEl ''ul''
             [''dataview'', ''dataview-ul'',
              if context = CtxList then ''dataview-result-list-ul''
              else ''dataview-result-list-root-ul''])
          (renderArrayExpanded rv field [])
      else if length field = 0 then Some (Returned (appendText container ''<empty list>''), [])
      else
        inside container
          (createEl ''span'' [''dataview'', ''dataview-result-list-span''])
          (renderArrayCompact rv True field []))"

text \<open>The branch for objects (lines 160 to 189).\<close>

definition renderObject ::
  "('v Literal \<Rightarrow> node list \<Rightarrow> outcome option) \<Rightarrow> string option \<Rightarrow> (string \<times> 'v Literal) list
     \<Rightarrow> node list \<Rightarrow> bool \<Rightarrow> outcome option" where
  "renderObject rv constructorName entries container expandList =
     (if truthy constructorName \<and> constructorName \<noteq> Some ''Object''
      then Some (Returned (appendText container (''<'' @ the constructorName @ ''>'')), [])
      else if expandList then
        inside container
          (createEl ''ul'' [''dataview'', ''dataview-ul'', ''dataview-result-object-ul''])
          (renderObjectExpanded rv entries [])
      else if length entries = 0 then Some (Returned (appendText container ''<empty object>''), [])
      else
        inside container
          (createEl ''span'' [''dataview'', ''dataview-result-object-span''])
          (renderObjectCompact rv True entries []))"

text \<open>The \<^verbatim>\<open>a\<close> element built for an external link (lines 120 to 125).\<close>

definition externalLinkElem :: "string \<Rightarrow> string option \<Rightarrow> node" where
  "externalLinkElem url display =
     Element ''a'' [''external-link'']
       [(''rel'', ''noopener''), (''target'', ''_blank''), (''href'', url)]
       (setTextContent (case display of Some d \<Rightarrow> d | None \<Rightarrow> url))"

text \<open>
  \<^verbatim>\<open>container.appendChild(field)\<close> for an HTML value (line 113). The DOM refuses an
  element that is the container or contains it; any other element leaves the place it is in
  and becomes the last child of the container.
\<close>

definition appendHtml :: "'v Host \<Rightarrow> node list \<Rightarrow> nat \<Rightarrow> outcome" where
  "appendHtml H container i =
     (if containsContainer H i then (Threw HierarchyRequestError container, [])
      else (Returned (appendChild (detachAll [i] container) (HtmlElement i)), [i]))"

text \<open>
  \<^verbatim>\<open>renderValue\<close> (lines 86 to 193), with the elements it attached. The recursion of the
  source is not bounded by the size of its argument, so the model counts calls: the first
  argument is the number of nested calls still allowed, and \<open>None\<close> says that they did not
  suffice. A call has an outcome if some number suffices; it has none if no number does.
\<close>

primrec renderValueM ::
  "nat \<Rightarrow> 'v Host \<Rightarrow> 'v Heap \<Rightarrow> 'v Literal \<Rightarrow> node list \<Rightarrow> string \<Rightarrow> Component
     \<Rightarrow> QuerySettings \<Rightarrow> bool \<Rightarrow> ValueRenderContext \<Rightarrow> int \<Rightarrow> outcome option" where
  "renderValueM 0 H h field container originFile component settings expandList context depth = None"
| "renderValueM (Suc n) H h field container originFile component settings expandList context depth =
     (if depth > maxRecursiveRenderDepth settings
      then Some (Returned (appendText container ''...''), [])
      else
        (case field of
           Null \<Rightarrow>
             Some (renderCompactMarkdown H (renderNullAs settings) container originFile component, [])
         | Date d \<Rightarrow>
             Some (Returned (appendText container
                     (renderMinimalDate H d settings (currentLocale H))), [])
         | Duration d \<Rightarrow>
             Some (Returned (appendText container (renderMinimalDuration H d)), [])
         | String s \<Rightarrow>
             Some (renderCompactMarkdown H ('''' @ s) container originFile component, [])
         | Boolean b \<Rightarrow>
             Some (renderCompactMarkdown H ('''' @ (if b then ''true'' else ''false''))
                     container originFile component, [])
         | Number x \<Rightarrow>
             Some (renderCompactMarkdown H ('''' @ numberToString H x)
                     container originFile component, [])
         | Link l \<Rightarrow>
             Some (renderCompactMarkdown H (markdown H l) container originFile component, [])
         | Html i \<Rightarrow>
             Some (appendHtml H container i)
         | Function \<Rightarrow>
             Some (Returned (appendText container ''<function>''), [])
         | Unclassified x \<Rightarrow>
             (case stringify H x of
                Some json \<Rightarrow> Some (Returned (appendText container (''Unrecognized: '' @ json)), [])
              | None \<Rightarrow> Some (Threw TypeError container, []))
         | Ref a \<Rightarrow>
             (case h a of
                ListPair key val \<Rightarrow>
                  andThenM
                    (renderValueM n H h key container originFile component settings
                       expandList context depth)
                    (\<lambda>container.
                       renderValueM n H h val (appendText container '': '') originFile component
                         settings expandList context depth)
              | ExternalLink url display \<Rightarrow>
                  Some (Returned (appendChild container (externalLinkElem url display)), [])
              | UnknownWidget w \<Rightarrow>
                  Some (Returned (appendText container (''<unknown widget '' @ [CHR 0x27] @ w @ ''>'')), [])
              | Array xs \<Rightarrow>
                  renderArray
                    (\<lambda>child el. renderValueM n H h child el originFile component settings
                                  expandList CtxList (depth + 1))
                    xs container expandList context
              | DataArray xs \<Rightarrow>
                  renderArray
                    (\<lambda>child el. renderValueM n H h child el originFile component settings
                                  expandList CtxList (depth + 1))
                    xs container expandList context
              | Object constructorName entries \<Rightarrow>
                  renderObject
                    (\<lambda>child el. renderValueM n H h child el originFile component settings
                                  expandList CtxList (depth + 1))
                    constructorName entries container expandList)))"

declare renderValueM.simps(2) [simp del]

text \<open>The outcome of \<^verbatim>\<open>renderValue\<close> for its container.\<close>

definition renderValue ::
  "nat \<Rightarrow> 'v Host \<Rightarrow> 'v Heap \<Rightarrow> 'v Literal \<Rightarrow> node list \<Rightarrow> string \<Rightarrow> Component
     \<Rightarrow> QuerySettings \<Rightarrow> bool \<Rightarrow> ValueRenderContext \<Rightarrow> int \<Rightarrow> result option" where
  "renderValue n H h field container originFile component settings expandList context depth =
     map_option fst
       (renderValueM n H h field container originFile component settings expandList context depth)"

section \<open>Notions used in the statements\<close>

text \<open>The values a value holds: itself, and the keys, values, elements and fields below it.\<close>

inductive_set parts :: "'v Heap \<Rightarrow> 'v Literal \<Rightarrow> 'v Literal set"
  for h :: "'v Heap" and field :: "'v Literal" where
  self: "field \<in> parts h field"
| key: "Ref a \<in> parts h field \<Longrightarrow> h a = ListPair k v \<Longrightarrow> k \<in> parts h field"
| val: "Ref a \<in> parts h field \<Longrightarrow> h a = ListPair k v \<Longrightarrow> v \<in> parts h field"
| element: "Ref a \<in> parts h field \<Longrightarrow> h a = Array xs \<Longrightarrow> x \<in> set xs \<Longrightarrow> x \<in> parts h field"
| dataElement: "Ref a \<in> parts h field \<Longrightarrow> h a = DataArray xs \<Longrightarrow> x \<in> set xs \<Longrightarrow> x \<in> parts h field"
| entry: "Ref a \<in> parts h field \<Longrightarrow> h a = Object cn es \<Longrightarrow> (k, x) \<in> set es \<Longrightarrow> x \<in> parts h field"

text \<open>
  \<open>(b, a) \<in> pairNesting h field\<close>: \<open>field\<close> holds the list pair at address
  \<open>a\<close>, which has the object at \<open>b\<close> as its key or as its value. The relation is
  well-founded exactly when no chain of list pairs that \<open>field\<close> holds, each the key or
  value of the one before, goes on forever; on a finite heap, when \<open>field\<close> holds no list
  pair that reaches itself through keys and values of list pairs alone. \<open>keyNesting\<close> is
  the same for keys only. A list pair renders its key before anything is awaited, so a chain
  of keys that goes on forever exhausts the call stack; a chain that goes through a value
  resumes after an \<^verbatim>\<open>await\<close> and goes on without an end and without an exception.
\<close>

definition pairNesting :: "'v Heap \<Rightarrow> 'v Literal \<Rightarrow> (addr \<times> addr) set" where
  "pairNesting h field =
     {(b, a). Ref a \<in> parts h field
              \<and> (\<exists>key val. h a = ListPair key val \<and> (key = Ref b \<or> val = Ref b))}"




text \<open>\<open>n\<close> nested calls suffice for \<open>field\<close> at \<open>depth\<close>, whatever the element and context.\<close>

definition completesWithin ::
  "nat \<Rightarrow> 'v Host \<Rightarrow> 'v Heap \<Rightarrow> 'v Literal \<Rightarrow> string \<Rightarrow> Component \<Rightarrow> QuerySettings
     \<Rightarrow> bool \<Rightarrow> int \<Rightarrow> bool" where
  "completesWithin n H h field originFile component settings expandList depth =
     (\<forall>container context. \<exists>r.
        renderValueM n H h field container originFile component settings expandList context depth
          = Some r)"

text \<open>Every outcome of \<open>rv\<close> is also the outcome of \<open>rv'\<close>.\<close>

definition extends ::
  "('v Literal \<Rightarrow> node list \<Rightarrow> outcome option) \<Rightarrow> ('v Literal \<Rightarrow> node list \<Rightarrow> outcome option)
     \<Rightarrow> bool" where
  "extends rv rv' = (\<forall>x c y. rv x c = Some y \<longrightarrow> rv' x c = Some y)"

text \<open>
  The outcome of a call on an empty container, seen on a container that held \<open>c\<close>: the
  elements the call attached have left \<open>c\<close>, and what the call appended follows.
\<close>

fun after :: "node list \<Rightarrow> outcome option \<Rightarrow> outcome option" where
  "after c None = None"
| "after c (Some (Returned out, moved)) = Some (Returned (detachAll moved c @ out), moved)"
| "after c (Some (Threw e out, moved)) = Some (Threw e (detachAll moved c @ out), moved)"

text \<open>
  The children of the \<^verbatim>\<open>span\<close> of a compact list, given what each element
  renders to on its own: the text \<^verbatim>\<open>", "\<close> before every element but the first.
\<close>

fun joinRendered :: "bool \<Rightarrow> node list list \<Rightarrow> node list" where
  "joinRendered first [] = []"
| "joinRendered first (out # outs) =
     (if first then [] else [TextNode '', '']) @ out @ joinRendered False outs"

text \<open>
  Given what each element of a list renders to on its own and the elements from before the
  call it attaches: no element attaches one that is in \<open>held\<close> or in what an earlier
  element rendered.
\<close>

fun attachedOnce :: "nat set \<Rightarrow> (node list \<times> nat list) list \<Rightarrow> bool" where
  "attachedOnce held [] = True"
| "attachedOnce held ((out, moved) # rest) =
     (set moved \<inter> held = {} \<and> attachedOnce (held \<union> htmlElementsIn out) rest)"

section \<open>Example hosts, settings and heaps\<close>

text \<open>
  A host whose host values are their own display text (\<^verbatim>\<open>10n\<close> is a BigInt, which
  \<^verbatim>\<open>JSON.stringify\<close> refuses), whose markup renderer wraps the markup text in one
  paragraph, and where the element 0 is the container of the outermost call; one that puts a
  text node before the paragraph; one that puts a text node before and one after it; one
  whose markup renderer always throws; one whose markup renderer throws on the text
  \<^verbatim>\<open>b\<close>.
\<close>

definition paragraphHost :: "string Host" where
  "paragraphHost =
     \<lparr> renderMarkdown =
         (\<lambda>md el sourcePath component. Returned (el @ [Element ''p'' [] [] [TextNode md]])),
       renderMinimalDate = (\<lambda>d settings locale. d),
       renderMinimalDuration = (\<lambda>d. d),
       currentLocale = ''en'',
       numberToString = (\<lambda>x. x),
       markdown = (\<lambda>l. l),
       stringify = (\<lambda>x. if x = ''10n'' then None else Some x),
       containsContainer = (\<lambda>i. i = 0) \<rparr>"

definition looseTextHost :: "string Host" where
  "looseTextHost =
     paragraphHost \<lparr> renderMarkdown :=
       (\<lambda>md el sourcePath component.
          Returned (el @ [TextNode ''a'', Element ''p'' [] [] [TextNode md]])) \<rparr>"

definition textAroundHost :: "string Host" where
  "textAroundHost =
     paragraphHost \<lparr> renderMarkdown :=
       (\<lambda>md el sourcePath component.
          Returned (el @ [TextNode ''a'', Element ''p'' [] [] [TextNode md], TextNode ''z''])) \<rparr>"


definition failingOnBHost :: "string Host" where
  "failingOnBHost =
     paragraphHost \<lparr> renderMarkdown :=
       (\<lambda>md el sourcePath component.
          if md = ''b'' then Threw (HostError md) el
          else Returned (el @ [Element ''p'' [] [] [TextNode md]])) \<rparr>"

definition exampleSettings :: QuerySettings where
  "exampleSettings = \<lparr> maxRecursiveRenderDepth = 4, renderNullAs = ''-'' \<rparr>"

text \<open>
  A heap with an array that contains itself (0), a three-element array (1), a list pair (2),
  an external link (3), an instance of a class \<^verbatim>\<open>Foo\<close> with a field holding the
  instance itself (4), an empty plain object (5), an unknown widget (6), an empty data
  array (7), an instance of \<^verbatim>\<open>Foo\<close> with no field (8), an instance of a class
  without a name, whose \<^verbatim>\<open>constructor.name\<close> is the empty string (9), an array that
  holds the element 7 twice (10), an array that holds the elements 7 and 8 (11) and an
  external link whose display text is the empty string (12); every other address holds an
  empty array.
\<close>

definition exampleHeap :: "string Heap" where
  "exampleHeap =
     (\<lambda>a. Array [])
       (0 := Array [Ref 0],
        1 := Array [String ''a'', String ''b'', String ''c''],
        2 := ListPair (String ''k'') (Number ''5''),
        3 := ExternalLink ''https://x'' None,
        4 := Object (Some ''Foo'') [(''self'', Ref 4)],
        5 := Object (Some ''Object'') [],
        6 := UnknownWidget ''chart'',
        7 := DataArray [],
        8 := Object (Some ''Foo'') [],
        9 := Object (Some []) [(''x'', String ''a'')],
        10 := Array [Html 7, Html 7],
        11 := Array [Html 7, String ''b'', Html 8],
        12 := ExternalLink ''https://x'' (Some []))"

text \<open>
  A list pair that is its own key (0), a list pair that is its own value (1) and a list pair
  that is its own key and has a string as its value (2).
\<close>

definition selfPairHeap :: "string Heap" where
  "selfPairHeap =
     (\<lambda>a. Array [])
       (0 := ListPair (Ref 0) Null,
        1 := ListPair (String ''k'') (Ref 1),
        2 := ListPair (Ref 2) (String ''v''))"

section \<open>The outcome for the container\<close>

lemma renderValue_0 [simp]:
  "renderValue 0 H h field container originFile component settings expandList context depth = None"
  by (simp add: renderValue_def)

lemma fst_andThenM:
  "map_option fst (andThenM x f) = andThen (map_option fst x) (\<lambda>el. map_option fst (f el))"
  by (cases "(x, f)" rule: andThenM.cases) (auto split: option.splits)

lemma renderValue_guard:
  "maxRecursiveRenderDepth settings < depth
   \<Longrightarrow> renderValue (Suc n) H h field container originFile component settings expandList context depth
         = Some (Returned (container @ [TextNode ''...'']))"
  by (simp add: renderValue_def renderValueM.simps(2) appendText_def)

lemma renderValue_ListPair:
  assumes "h a = ListPair key val" and "\<not> maxRecursiveRenderDepth settings < depth"
  shows "renderValue (Suc n) H h (Ref a) container originFile component settings expandList context depth
           = andThen
               (renderValue n H h key container originFile component settings expandList context depth)
               (\<lambda>el. renderValue n H h val (el @ [TextNode '': '']) originFile component settings
                       expandList context depth)"
  using assms by (simp add: renderValue_def renderValueM.simps(2) fst_andThenM appendText_def)

section \<open>The number of nested calls\<close>

lemma andThenM_mono:
  assumes "andThenM x f = Some r"
    and "\<And>y. x = Some y \<Longrightarrow> x' = Some y"
    and "\<And>c y. f c = Some y \<Longrightarrow> f' c = Some y"
  shows "andThenM x' f' = Some r"
proof (cases x)
  case None
  with assms(1) show ?thesis by simp
next
  case (Some y)
  then have x': "x' = Some y" by (rule assms(2))
  obtain res moved where y: "y = (res, moved)" by (cases y)
  show ?thesis
  proof (cases res)
    case (Returned c)
    from assms(1) Some y Returned obtain r' moved' where
      f: "f c = Some (r', moved')" and r: "r = (r', moved @ moved')"
      by (auto split: option.splits)
    from assms(3)[OF f] show ?thesis using x' y Returned r by simp
  next
    case (Threw e c)
    with Some x' y assms(1) show ?thesis by auto
  qed
qed

lemma inside_mono:
  assumes "inside container el x = Some r"
    and "\<And>y. x = Some y \<Longrightarrow> x' = Some y"
  shows "inside container el x' = Some r"
proof (cases x)
  case None
  with assms(1) show ?thesis by simp
next
  case (Some y)
  then have "x' = Some y" by (rule assms(2))
  with Some assms(1) show ?thesis by simp
qed

lemma extendsD: "extends rv rv' \<Longrightarrow> rv x c = Some y \<Longrightarrow> rv' x c = Some y"
  unfolding extends_def by blast

lemma renderArrayExpanded_mono:
  "extends rv rv' \<Longrightarrow> renderArrayExpanded rv xs ul = Some r \<Longrightarrow> renderArrayExpanded rv' xs ul = Some r"
proof (induction xs arbitrary: ul r)
  case Nil
  then show ?case by simp
next
  case (Cons x xs)
  from Cons.prems(2) show ?case
    unfolding renderArrayExpanded.simps
    by (rule andThenM_mono) (blast intro: inside_mono extendsD[OF Cons.prems(1)] Cons.IH[OF Cons.prems(1)])+
qed

lemma renderArrayCompact_mono:
  "extends rv rv' \<Longrightarrow> renderArrayCompact rv first xs span = Some r \<Longrightarrow> renderArrayCompact rv' first xs span = Some r"
proof (induction xs arbitrary: span first r)
  case Nil
  then show ?case by simp
next
  case (Cons x xs)
  from Cons.prems(2) show ?case
    unfolding renderArrayCompact.simps
    by (rule andThenM_mono) (blast intro: extendsD[OF Cons.prems(1)] Cons.IH[OF Cons.prems(1)])+
qed

lemma renderObjectExpanded_mono:
  "extends rv rv' \<Longrightarrow> renderObjectExpanded rv es ul = Some r \<Longrightarrow> renderObjectExpanded rv' es ul = Some r"
proof (induction es arbitrary: ul r)
  case Nil
  then show ?case by simp
next
  case (Cons kv es)
  obtain key val where kv: "kv = (key, val)" by (cases kv)
  from Cons.prems(2) show ?case
    unfolding kv renderObjectExpanded.simps
    by (rule andThenM_mono) (blast intro: inside_mono extendsD[OF Cons.prems(1)] Cons.IH[OF Cons.prems(1)])+
qed

lemma renderObjectCompact_mono:
  "extends rv rv' \<Longrightarrow> renderObjectCompact rv first es span = Some r \<Longrightarrow> renderObjectCompact rv' first es span = Some r"
proof (induction es arbitrary: span first r)
  case Nil
  then show ?case by simp
next
  case (Cons kv es)
  obtain key val where kv: "kv = (key, val)" by (cases kv)
  from Cons.prems(2) show ?case
    unfolding kv renderObjectCompact.simps
    by (rule andThenM_mono) (blast intro: extendsD[OF Cons.prems(1)] Cons.IH[OF Cons.prems(1)])+
qed

lemma renderArray_mono:
  "extends rv rv' \<Longrightarrow> renderArray rv xs container expandList context = Some r
     \<Longrightarrow> renderArray rv' xs container expandList context = Some r"
  unfolding renderArray_def
  by (auto simp del: split_paired_All split_paired_Ex split: if_splits elim!: inside_mono intro: renderArrayExpanded_mono renderArrayCompact_mono)

lemma renderObject_mono:
  "extends rv rv' \<Longrightarrow> renderObject rv cn es container expandList = Some r
     \<Longrightarrow> renderObject rv' cn es container expandList = Some r"
  unfolding renderObject_def
  by (auto simp del: split_paired_All split_paired_Ex split: if_splits elim!: inside_mono intro: renderObjectExpanded_mono renderObjectCompact_mono)

lemma renderValueM_Suc_mono:
  "renderValueM n H h field container originFile component settings expandList context depth = Some r
   \<Longrightarrow> renderValueM (Suc n) H h field container originFile component settings expandList context depth = Some r"
proof (induction n arbitrary: field container "context" depth r)
  case 0
  then show ?case by simp
next
  case (Suc n)
  have ext: "extends
      (\<lambda>child el. renderValueM n H h child el originFile component settings expandList CtxList (depth + 1))
      (\<lambda>child el. renderValueM (Suc n) H h child el originFile component settings expandList CtxList (depth + 1))"
    unfolding extends_def using Suc.IH by blast
  show ?case
  proof (cases "depth > maxRecursiveRenderDepth settings")
    case True
    with Suc.prems show ?thesis by (simp add: renderValueM.simps(2))
  next
    case False
    note guard = this
    show ?thesis
    proof (cases field)
      case (Ref a)
      show ?thesis
      proof (cases "h a")
        case (ListPair key val)
        from Suc.prems have
          "andThenM (renderValueM n H h key container originFile component settings expandList context depth)
             (\<lambda>container. renderValueM n H h val (appendText container '': '') originFile component
                settings expandList context depth) = Some r"
          using guard Ref ListPair by (simp add: renderValueM.simps(2)[of n])
        then have
          "andThenM (renderValueM (Suc n) H h key container originFile component settings expandList context depth)
             (\<lambda>container. renderValueM (Suc n) H h val (appendText container '': '') originFile component
                settings expandList context depth) = Some r"
          by (rule andThenM_mono) (auto intro: Suc.IH)
        then show ?thesis
          using guard Ref ListPair by (simp add: renderValueM.simps(2)[of "Suc n"])
      next
        case (Array xs)
        from Suc.prems have
          "renderArray (\<lambda>child el. renderValueM n H h child el originFile component settings expandList CtxList (depth + 1))
              xs container expandList context = Some r"
          using guard Ref Array by (simp add: renderValueM.simps(2)[of n])
        from renderArray_mono[OF ext this] show ?thesis
          using guard Ref Array by (simp add: renderValueM.simps(2)[of "Suc n"])
      next
        case (DataArray xs)
        from Suc.prems have
          "renderArray (\<lambda>child el. renderValueM n H h child el originFile component settings expandList CtxList (depth + 1))
              xs container expandList context = Some r"
          using guard Ref DataArray by (simp add: renderValueM.simps(2)[of n])
        from renderArray_mono[OF ext this] show ?thesis
          using guard Ref DataArray by (simp add: renderValueM.simps(2)[of "Suc n"])
      next
        case (Object cn es)
        from Suc.prems have
          "renderObject (\<lambda>child el. renderValueM n H h child el originFile component settings expandList CtxList (depth + 1))
              cn es container expandList = Some r"
          using guard Ref Object by (simp add: renderValueM.simps(2)[of n])
        from renderObject_mono[OF ext this] show ?thesis
          using guard Ref Object by (simp add: renderValueM.simps(2)[of "Suc n"])
      qed (use Suc.prems guard Ref in \<open>simp_all add: renderValueM.simps(2)\<close>)
    qed (use Suc.prems guard in \<open>simp_all add: renderValueM.simps(2)\<close>)
  qed
qed

lemma renderValueM_mono:
  assumes "renderValueM n H h field container originFile component settings expandList context depth = Some r"
    and "n \<le> m"
  shows "renderValueM m H h field container originFile component settings expandList context depth = Some r"
  using assms(2,1)
  by (induction m rule: dec_induct) (auto intro: renderValueM_Suc_mono)

section \<open>Which calls return\<close>

lemma completesWithin_mono:
  "completesWithin n H h field originFile component settings expandList depth \<Longrightarrow> n \<le> m
   \<Longrightarrow> completesWithin m H h field originFile component settings expandList depth"
  unfolding completesWithin_def by (meson renderValueM_mono)

lemma andThenM_completes:
  "\<exists>y. x = Some y \<Longrightarrow> \<forall>c. \<exists>r. f c = Some r \<Longrightarrow> \<exists>r. andThenM x f = Some r"
proof (cases "(x, f)" rule: andThenM.cases)
  case (3 el moved f')
  assume "\<forall>c. \<exists>r. f c = Some r"
  then obtain r where "f el = Some r" by blast
  with 3 show ?thesis by (cases r) simp
qed auto

lemma inside_completes: "\<exists>y. x = Some y \<Longrightarrow> \<exists>r. inside container el x = Some r"
  by (cases "(container, el, x)" rule: inside.cases) auto

lemma renderArrayExpanded_completes:
  "\<forall>x \<in> set xs. \<forall>c. \<exists>r. rv x c = Some r \<Longrightarrow> \<exists>r. renderArrayExpanded rv xs ul = Some r"
  by (induction xs arbitrary: ul) (auto simp del: split_paired_All split_paired_Ex intro!: andThenM_completes inside_completes)

lemma renderArrayCompact_completes:
  "\<forall>x \<in> set xs. \<forall>c. \<exists>r. rv x c = Some r \<Longrightarrow> \<exists>r. renderArrayCompact rv first xs span = Some r"
  by (induction xs arbitrary: span first) (auto simp del: split_paired_All split_paired_Ex intro!: andThenM_completes)

lemma renderObjectExpanded_completes:
  "\<forall>x \<in> snd ` set es. \<forall>c. \<exists>r. rv x c = Some r \<Longrightarrow> \<exists>r. renderObjectExpanded rv es ul = Some r"
  by (induction es arbitrary: ul) (auto simp del: split_paired_All split_paired_Ex intro!: andThenM_completes inside_completes)

lemma renderObjectCompact_completes:
  "\<forall>x \<in> snd ` set es. \<forall>c. \<exists>r. rv x c = Some r \<Longrightarrow> \<exists>r. renderObjectCompact rv first es span = Some r"
  by (induction es arbitrary: span first) (auto simp del: split_paired_All split_paired_Ex intro!: andThenM_completes)

lemma renderArray_completes:
  "\<forall>x \<in> set xs. \<forall>c. \<exists>r. rv x c = Some r \<Longrightarrow> \<exists>r. renderArray rv xs container expandList context = Some r"
  unfolding renderArray_def
  by (auto simp del: split_paired_All split_paired_Ex intro!: inside_completes renderArrayExpanded_completes renderArrayCompact_completes)

lemma renderObject_completes:
  "\<forall>x \<in> snd ` set es. \<forall>c. \<exists>r. rv x c = Some r \<Longrightarrow> \<exists>r. renderObject rv cn es container expandList = Some r"
  unfolding renderObject_def
  by (auto simp del: split_paired_All split_paired_Ex intro!: inside_completes renderObjectExpanded_completes renderObjectCompact_completes)

lemma uniform_bound:
  fixes P :: "nat \<Rightarrow> 'a \<Rightarrow> bool"
  assumes "\<forall>x \<in> set xs. \<exists>n. P n x" and "\<And>n m x. P n x \<Longrightarrow> n \<le> m \<Longrightarrow> P m x"
  shows "\<exists>N. \<forall>x \<in> set xs. P N x"
  using assms(1)
proof (induction xs)
  case Nil
  then show ?case by simp
next
  case (Cons x xs)
  then obtain N where N: "\<forall>y \<in> set xs. P N y" by auto
  from Cons.prems obtain n where n: "P n x" by auto
  have here: "P (max n N) x"
    by (rule assms(2)[OF n]) simp
  have rest: "P (max n N) y" if "y \<in> set xs" for y
    by (rule assms(2)[of N]) (use N that in auto)
  have "\<forall>y \<in> set (x # xs). P (max n N) y"
    using here rest by simp
  then show ?case ..
qed

lemma guard_completes:
  "maxRecursiveRenderDepth settings < depth
   \<Longrightarrow> completesWithin (Suc n) H h field originFile component settings expandList depth"
  by (simp add: completesWithin_def renderValueM.simps(2))

lemma scalar_completes:
  "\<forall>a. field \<noteq> Ref a
   \<Longrightarrow> completesWithin (Suc n) H h field originFile component settings expandList depth"
  by (cases field) (simp_all add: completesWithin_def renderValueM.simps(2) split: option.splits)

lemma children_complete:
  assumes deeper: "\<forall>x \<in> set xs. \<exists>n. completesWithin n H h x originFile component settings expandList (depth + 1)"
  shows "\<exists>N. \<forall>x \<in> set xs. \<forall>c. \<exists>r.
           renderValueM N H h x c originFile component settings expandList CtxList (depth + 1) = Some r"
proof -
  from deeper
  have "\<exists>N. \<forall>x \<in> set xs. completesWithin N H h x originFile component settings expandList (depth + 1)"
    by (rule uniform_bound) (rule completesWithin_mono)
  then show ?thesis unfolding completesWithin_def by blast
qed

lemma ref_completes:
  assumes wf: "wf (pairNesting h field)"
    and held: "Ref a \<in> parts h field"
    and deeper: "\<forall>child \<in> parts h field.
                   \<exists>n. completesWithin n H h child originFile component settings expandList (depth + 1)"
  shows "\<exists>n. completesWithin n H h (Ref a) originFile component settings expandList depth"
  using wf held
proof (induction a rule: wf_induct_rule)
  case (less a)
  note held = less.prems
  show ?case
  proof (cases "maxRecursiveRenderDepth settings < depth")
    case True
    then show ?thesis using guard_completes by blast
  next
    case False
    note guard = this
    show ?thesis
    proof (cases "h a")
      case (ListPair key val)
      have part: "\<exists>n. completesWithin n H h x originFile component settings expandList depth"
        if "x = key \<or> x = val" for x
      proof (cases "\<exists>b. x = Ref b")
        case True
        then obtain b where b: "x = Ref b" ..
        with that ListPair held have nested: "(b, a) \<in> pairNesting h field"
          by (auto simp: pairNesting_def)
        from that have "x \<in> parts h field"
          using parts.key[OF held ListPair] parts.val[OF held ListPair] by blast
        with b have "Ref b \<in> parts h field" by simp
        from less.IH[OF nested this] b show ?thesis by simp
      next
        case False
        then show ?thesis using scalar_completes by blast
      qed
      from part obtain nk where nk: "completesWithin nk H h key originFile component settings expandList depth"
        by blast
      from part obtain nv where nv: "completesWithin nv H h val originFile component settings expandList depth"
        by blast
      let ?N = "max nk nv"
      have k: "completesWithin ?N H h key originFile component settings expandList depth"
        using nk by (rule completesWithin_mono) simp
      have v: "completesWithin ?N H h val originFile component settings expandList depth"
        using nv by (rule completesWithin_mono) simp
      have "completesWithin (Suc ?N) H h (Ref a) originFile component settings expandList depth"
        unfolding completesWithin_def
      proof (intro allI)
        fix container "context"
        have kx: "\<exists>y. renderValueM ?N H h key container originFile component settings expandList context depth = Some y"
          using k unfolding completesWithin_def by blast
        have vx: "\<forall>c. \<exists>r. renderValueM ?N H h val (appendText c '': '') originFile component
                settings expandList context depth = Some r"
          using v unfolding completesWithin_def by blast
        have "\<exists>r. andThenM (renderValueM ?N H h key container originFile component settings expandList context depth)
             (\<lambda>container. renderValueM ?N H h val (appendText container '': '') originFile component
                settings expandList context depth) = Some r"
          using kx vx by (rule andThenM_completes)
        then show "\<exists>r. renderValueM (Suc ?N) H h (Ref a) container originFile component settings
                      expandList context depth = Some r"
          using guard ListPair by (simp add: renderValueM.simps(2))
      qed
      then show ?thesis ..
    next
      case (Array xs)
      have "\<forall>x \<in> set xs. \<exists>n. completesWithin n H h x originFile component settings expandList (depth + 1)"
        using deeper parts.element[OF held Array] by blast
      from children_complete[OF this] obtain N where
        N: "\<forall>x \<in> set xs. \<forall>c. \<exists>r. renderValueM N H h x c originFile component settings expandList CtxList (depth + 1) = Some r"
        ..
      have "completesWithin (Suc N) H h (Ref a) originFile component settings expandList depth"
        unfolding completesWithin_def
        using guard Array renderArray_completes[OF N] by (simp add: renderValueM.simps(2))
      then show ?thesis ..
    next
      case (DataArray xs)
      have "\<forall>x \<in> set xs. \<exists>n. completesWithin n H h x originFile component settings expandList (depth + 1)"
        using deeper parts.dataElement[OF held DataArray] by blast
      from children_complete[OF this] obtain N where
        N: "\<forall>x \<in> set xs. \<forall>c. \<exists>r. renderValueM N H h x c originFile component settings expandList CtxList (depth + 1) = Some r"
        ..
      have "completesWithin (Suc N) H h (Ref a) originFile component settings expandList depth"
        unfolding completesWithin_def
        using guard DataArray renderArray_completes[OF N] by (simp add: renderValueM.simps(2))
      then show ?thesis ..
    next
      case (Object cn es)
      have "\<forall>x \<in> set (map snd es). \<exists>n. completesWithin n H h x originFile component settings expandList (depth + 1)"
        using deeper parts.entry[OF held Object] by auto
      from children_complete[OF this] obtain N where
        N: "\<forall>x \<in> snd ` set es. \<forall>c. \<exists>r. renderValueM N H h x c originFile component settings expandList CtxList (depth + 1) = Some r"
        by auto
      have "completesWithin (Suc N) H h (Ref a) originFile component settings expandList depth"
        unfolding completesWithin_def
        using guard Object renderObject_completes[OF N] by (simp add: renderValueM.simps(2))
      then show ?thesis ..
    next
      case (ExternalLink url display)
      have "completesWithin (Suc 0) H h (Ref a) originFile component settings expandList depth"
        unfolding completesWithin_def using guard ExternalLink by (simp add: renderValueM.simps(2))
      then show ?thesis ..
    next
      case (UnknownWidget w)
      have "completesWithin (Suc 0) H h (Ref a) originFile component settings expandList depth"
        unfolding completesWithin_def using guard UnknownWidget by (simp add: renderValueM.simps(2))
      then show ?thesis ..
    qed
  qed
qed

lemma renderValueM_completes_aux:
  assumes wf: "wf (pairNesting h field)"
  shows "nat (maxRecursiveRenderDepth settings + 1 - depth) = k \<Longrightarrow> x \<in> parts h field
         \<Longrightarrow> \<exists>n. completesWithin n H h x originFile component settings expandList depth"
proof (induction k arbitrary: depth x)
  case 0
  then have "maxRecursiveRenderDepth settings < depth" by simp
  then show ?case using guard_completes by blast
next
  case (Suc k)
  then have "nat (maxRecursiveRenderDepth settings + 1 - (depth + 1)) = k" by simp
  then have deeper: "\<forall>child \<in> parts h field.
      \<exists>n. completesWithin n H h child originFile component settings expandList (depth + 1)"
    using Suc.IH by blast
  show ?case
  proof (cases "\<exists>a. x = Ref a")
    case True
    then show ?thesis using ref_completes[OF wf _ deeper] Suc.prems(2) by blast
  next
    case False
    then show ?thesis using scalar_completes by blast
  qed
qed

lemma renderValue_completes:
  assumes "wf (pairNesting h field)"
  shows "\<exists>n r. renderValue n H h field container originFile component settings expandList context depth = Some r"
proof -
  from renderValueM_completes_aux[OF assms refl parts.self]
  obtain n where "completesWithin n H h field originFile component settings expandList depth"
    by blast
  then show ?thesis unfolding completesWithin_def renderValue_def by (metis option.simps(9))
qed

section \<open>Where exceptions come from\<close>













section \<open>Paragraphs\<close>

lemma moveChildren_append: "moveChildren ns following = following @ ns"
  by (induction ns arbitrary: following) auto

lemma isParagraph_isElement: "isParagraph n \<Longrightarrow> isElement n"
  by (cases n) auto

lemma single_paragraph_split:
  assumes "filter isElement el = [p]" and "isParagraph p"
  shows "dropWhile (\<lambda>n. \<not> isParagraph n) el = p # filter (\<lambda>n. \<not> isElement n) (dropWhile (\<lambda>n. \<not> isParagraph n) el)
         \<and> takeWhile (\<lambda>n. \<not> isParagraph n) el @ filter (\<lambda>n. \<not> isElement n) (dropWhile (\<lambda>n. \<not> isParagraph n) el)
             = filter (\<lambda>n. \<not> isElement n) el
         \<and> tl (dropWhile (\<lambda>n. \<not> isParagraph n) el) = filter (\<lambda>n. \<not> isElement n) (dropWhile (\<lambda>n. \<not> isParagraph n) el)"
  using assms
proof (induction el)
  case Nil
  then show ?case by simp
next
  case (Cons n el)
  show ?case
  proof (cases "isElement n")
    case True
    with Cons.prems have np: "n = p" and rest: "filter isElement el = []" by auto
    from rest have "filter (\<lambda>n. \<not> isElement n) el = el"
      by (simp add: filter_empty_conv)
    with np Cons.prems(2) True show ?thesis by simp
  next
    case False
    then have "\<not> isParagraph n" using isParagraph_isElement by blast
    with False Cons show ?thesis by simp
  qed
qed

lemma hoistParagraph_single:
  assumes "children el = [p]" and "isParagraph p"
  shows "hoistParagraph el = filter (\<lambda>n. \<not> isElement n) el @ childNodes p"
proof -
  from assms have f: "filter isElement el = [p]" by (simp add: children_def)
  define following where "following = filter (\<lambda>n. \<not> isElement n) (dropWhile (\<lambda>n. \<not> isParagraph n) el)"
  from single_paragraph_split[OF f assms(2)]
  have d: "dropWhile (\<lambda>n. \<not> isParagraph n) el = p # following"
    and t: "takeWhile (\<lambda>n. \<not> isParagraph n) el @ following = filter (\<lambda>n. \<not> isElement n) el"
    unfolding following_def by blast+
  have "hoistParagraph el = takeWhile (\<lambda>n. \<not> isParagraph n) el @ following @ childNodes p"
    unfolding hoistParagraph_def by (simp add: d moveChildren_append)
  also have "\<dots> = filter (\<lambda>n. \<not> isElement n) el @ childNodes p"
    using t by (metis append.assoc)
  finally show ?thesis .
qed

lemma querySelector_p_single:
  assumes "children el = [p]"
  shows "querySelector_p el = (if isParagraph p then Some p else None)"
proof -
  from assms have f: "filter isElement el = [p]" by (simp add: children_def)
  have "find isParagraph el = (if isParagraph p then Some p else None)"
    using f
  proof (induction el)
    case Nil
    then show ?case by simp
  next
    case (Cons n el)
    show ?case
    proof (cases "isElement n")
      case True
      with Cons.prems have np: "n = p" and rest: "filter isElement el = []" by auto
      from rest have "\<forall>x \<in> set el. \<not> isParagraph x"
        using isParagraph_isElement by (auto simp: filter_empty_conv)
      then have "find isParagraph el = None" by (simp add: find_None_iff)
      with np show ?thesis by simp
    next
      case False
      then have "\<not> isParagraph n" using isParagraph_isElement by blast
      with False Cons show ?thesis by simp
    qed
  qed
  then show ?thesis by (simp add: querySelector_p_def)
qed

lemma querySelector_p_no_elements:
  assumes "children el = []"
  shows "querySelector_p el = None"
proof -
  from assms have "\<forall>x \<in> set el. \<not> isElement x"
    by (simp add: children_def filter_empty_conv)
  then have "\<forall>x \<in> set el. \<not> isParagraph x"
    using isParagraph_isElement by blast
  then show ?thesis by (simp add: querySelector_p_def find_None_iff)
qed

text \<open>
  What \<^verbatim>\<open>renderCompactMarkdown\<close> does with a component other than the live preview's
  when the host's renderer returns: the test of line 59 is on the child elements.
\<close>

lemma renderCompactMarkdown_generic:
  assumes "component \<noteq> InlineFieldLivePreviewComponent"
    and "renderMarkdown H md [] sourcePath component = Returned subcontainer"
  shows "renderCompactMarkdown H md container sourcePath component
           = Returned (container @
               [Element ''span'' [] []
                  (case children subcontainer of
                     [p] \<Rightarrow>
                       if isParagraph p
                       then filter (\<lambda>n. \<not> isElement n) subcontainer @ childNodes p
                       else subcontainer
                   | _ \<Rightarrow> subcontainer)])"
proof (cases "children subcontainer")
  case Nil
  then show ?thesis
    using assms querySelector_p_no_elements[OF Nil]
    by (simp add: renderCompactMarkdown_def appendChild_def createSpan_def createEl_def)
next
  case (Cons p rest)
  show ?thesis
  proof (cases rest)
    case Nil
    with Cons have single: "children subcontainer = [p]" by simp
    show ?thesis
    proof (cases "isParagraph p")
      case True
      then show ?thesis
        using assms single querySelector_p_single[OF single] hoistParagraph_single[OF single True]
        by (simp add: renderCompactMarkdown_def appendChild_def createSpan_def createEl_def)
    next
      case False
      then show ?thesis
        using assms single querySelector_p_single[OF single]
        by (simp add: renderCompactMarkdown_def appendChild_def createSpan_def createEl_def)
    qed
  next
    case (Cons q rest')
    with \<open>children subcontainer = p # rest\<close> show ?thesis
      using assms
      by (simp add: renderCompactMarkdown_def appendChild_def createSpan_def createEl_def
            split: option.splits)
  qed
qed

section \<open>List pairs that hold themselves\<close>

lemma never_returns_self_key:
  assumes "h a = ListPair (Ref a) val" and "\<not> maxRecursiveRenderDepth settings < depth"
  shows "renderValueM n H h (Ref a) container originFile component settings expandList context depth = None"
  using assms by (induction n) (simp_all add: renderValueM.simps(2))

lemma andThenM_None:
  assumes "\<And>c. f c = None" and "\<And>e el m. x \<noteq> Some (Threw e el, m)"
  shows "andThenM x f = None"
  using assms by (cases "(x, f)" rule: andThenM.cases) auto

lemma never_returns_self_val:
  assumes "h a = ListPair key (Ref a)" and "\<not> maxRecursiveRenderDepth settings < depth"
    and "\<And>n c e el m. renderValueM n H h key c originFile component settings expandList context depth
                         \<noteq> Some (Threw e el, m)"
  shows "renderValueM n H h (Ref a) container originFile component settings expandList context depth = None"
proof (induction n arbitrary: container)
  case 0
  show ?case by simp
next
  case (Suc n)
  have "andThenM (renderValueM n H h key container originFile component settings expandList context depth)
             (\<lambda>container. renderValueM n H h (Ref a) (appendText container '': '') originFile component
                settings expandList context depth) = None"
    by (rule andThenM_None) (rule Suc.IH, rule assms(3))
  then show ?case using assms(1,2) by (simp add: renderValueM.simps(2))
qed

section \<open>Elements that change place\<close>

lemma concat_map_singleton: "(\<And>x. x \<in> set ns \<Longrightarrow> f x = [x]) \<Longrightarrow> concat (map f ns) = ns"
  by (induction ns) simp_all

lemma concat_map_concat_map:
  "concat (map g (concat (map f ns))) = concat (map (\<lambda>n. concat (map g (f n))) ns)"
  by (induction ns) simp_all

lemma detach_Nil: "detach [] n = [n]"
proof (induction n)
  case (Element t cls as ns)
  then have "concat (map (detach []) ns) = ns" by (intro concat_map_singleton)
  then show ?case by simp
qed simp_all

lemma detachAll_Nil [simp]: "detachAll [] ns = ns"
  unfolding detachAll_def by (rule concat_map_singleton) (rule detach_Nil)

lemma detachAll_empty [simp]: "detachAll ids [] = []"
  by (simp add: detachAll_def)

lemma detachAll_append: "detachAll ids (xs @ ys) = detachAll ids xs @ detachAll ids ys"
  by (simp add: detachAll_def)

lemma detachAll_TextNode [simp]: "detachAll ids [TextNode s] = [TextNode s]"
  by (simp add: detachAll_def)

lemma detach_detach:
  "concat (map (detach ids') (detach ids n)) = detach (ids @ ids') n"
proof (induction n)
  case (Element t cls as ns)
  have m: "map (\<lambda>n. concat (map (detach ids') (detach ids n))) ns = map (detach (ids @ ids')) ns"
    by (rule map_cong[OF refl]) (rule Element.IH)
  have below: "concat (map (detach ids') (concat (map (detach ids) ns)))
               = concat (map (detach (ids @ ids')) ns)"
    unfolding concat_map_concat_map m ..
  have "concat (map (detach ids') (detach ids (Element t cls as ns)))
          = [Element t cls as (concat (map (detach ids') (concat (map (detach ids) ns))))]"
    by simp
  also have "\<dots> = [Element t cls as (concat (map (detach (ids @ ids')) ns))]"
    by (simp only: below)
  also have "\<dots> = detach (ids @ ids') (Element t cls as ns)"
    by simp
  finally show ?case .
qed simp_all

lemma detachAll_detachAll: "detachAll ids' (detachAll ids ns) = detachAll (ids @ ids') ns"
  unfolding detachAll_def concat_map_concat_map detach_detach ..

lemma detach_fresh: "set ids \<inter> htmlElements n = {} \<Longrightarrow> detach ids n = [n]"
proof (induction n)
  case (Element t cls as ns)
  then have "\<And>n. n \<in> set ns \<Longrightarrow> detach ids n = [n]" by auto
  then have "concat (map (detach ids) ns) = ns" by (rule concat_map_singleton)
  then show ?case by simp
qed auto

lemma detachAll_fresh: "set ids \<inter> htmlElementsIn ns = {} \<Longrightarrow> detachAll ids ns = ns"
proof -
  assume "set ids \<inter> htmlElementsIn ns = {}"
  then have "\<And>n. n \<in> set ns \<Longrightarrow> detach ids n = [n]"
    using detach_fresh by (fastforce simp add: htmlElementsIn_def)
  then show ?thesis unfolding detachAll_def by (rule concat_map_singleton)
qed

lemma htmlElementsIn_append [simp]:
  "htmlElementsIn (xs @ ys) = htmlElementsIn xs \<union> htmlElementsIn ys"
  by (simp add: htmlElementsIn_def)

lemma htmlElementsIn_TextNode [simp]: "htmlElementsIn [TextNode s] = {}"
  by (simp add: htmlElementsIn_def)

section \<open>Appending to the container\<close>

text \<open>
  With a component other than the live preview's, a call appends to its container and takes
  out of it the elements it attaches: its outcome is the outcome on an empty container,
  after what is left of what the container held.
\<close>

lemma after_Some:
  "after c (Some (r, moved))
     = Some (case r of Returned out \<Rightarrow> Returned (detachAll moved c @ out)
                     | Threw e out \<Rightarrow> Threw e (detachAll moved c @ out), moved)"
  by (cases r) simp_all

lemma inside_after: "inside container el x = after container (inside [] el x)"
  by (cases "(container, el, x)" rule: inside.cases) (simp_all add: appendChild_def)

lemma renderCompactMarkdown_appends:
  assumes "component \<noteq> InlineFieldLivePreviewComponent"
  shows "Some (renderCompactMarkdown H md container sourcePath component, [])
           = after container (Some (renderCompactMarkdown H md [] sourcePath component, []))"
  using assms
  by (auto simp add: renderCompactMarkdown_def appendChild_def split: result.splits option.splits)

lemma renderArray_appends:
  "renderArray rv xs container expandList context
     = after container (renderArray rv xs [] expandList context)"
  by (simp add: renderArray_def inside_after[where container = container] appendText_def)

lemma renderObject_appends:
  "renderObject rv cn es container expandList
     = after container (renderObject rv cn es [] expandList)"
  by (simp add: renderObject_def inside_after[where container = container] appendText_def)

lemma pair_appends:
  assumes k: "\<And>c. rk c = after c (rk [])"
    and v: "\<And>c. rv c = after c (rv [])"
  shows "andThenM (rk container) (\<lambda>el. rv (appendText el s))
           = after container (andThenM (rk []) (\<lambda>el. rv (appendText el s)))"
proof (cases "rk []")
  case None
  then show ?thesis using k[of container] by simp
next
  case (Some y)
  obtain r m1 where y: "y = (r, m1)" by (cases y)
  show ?thesis
  proof (cases r)
    case (Threw e c1)
    then show ?thesis using k[of container] Some y by simp
  next
    case (Returned c1)
    have left: "rk container = Some (Returned (detachAll m1 container @ c1), m1)"
      using k[of container] Some y Returned by simp
    show ?thesis
    proof (cases "rv []")
      case None
      have "rv (appendText (detachAll m1 container @ c1) s) = None"
        using v[of "appendText (detachAll m1 container @ c1) s"] None by simp
      moreover have "rv (appendText c1 s) = None"
        using v[of "appendText c1 s"] None by simp
      ultimately show ?thesis using left Some y Returned by simp
    next
      case (Some z)
      obtain r2 m2 where z: "z = (r2, m2)" by (cases z)
      have a: "rv (appendText (detachAll m1 container @ c1) s)
                 = after (appendText (detachAll m1 container @ c1) s) (Some (r2, m2))"
        using v[of "appendText (detachAll m1 container @ c1) s"] Some z by simp
      have b: "rv (appendText c1 s) = after (appendText c1 s) (Some (r2, m2))"
        using v[of "appendText c1 s"] Some z by simp
      show ?thesis
        using left \<open>rk [] = Some y\<close> y Returned a b
        by (cases r2)
          (simp_all add: appendText_def detachAll_append detachAll_detachAll)
    qed
  qed
qed

lemma renderValueM_appends:
  assumes "component \<noteq> InlineFieldLivePreviewComponent"
  shows "renderValueM n H h field container originFile component settings expandList ctx depth
           = after container
               (renderValueM n H h field [] originFile component settings expandList ctx depth)"
proof (induction n arbitrary: field container)
  case 0
  show ?case by simp
next
  case (Suc n)
  show ?case
  proof (cases "depth > maxRecursiveRenderDepth settings")
    case True
    then show ?thesis by (simp add: renderValueM.simps(2) appendText_def)
  next
    case False
    note guard = this
    show ?thesis
    proof (cases field)
      case (Ref a)
      show ?thesis
      proof (cases "h a")
        case (ListPair key val)
        have "andThenM (renderValueM n H h key container originFile component settings expandList ctx depth)
                (\<lambda>el. renderValueM n H h val (appendText el '': '') originFile component settings
                        expandList ctx depth)
              = after container
                  (andThenM (renderValueM n H h key [] originFile component settings expandList ctx depth)
                     (\<lambda>el. renderValueM n H h val (appendText el '': '') originFile component settings
                             expandList ctx depth))"
          by (rule pair_appends) (rule Suc.IH)+
        then show ?thesis using guard Ref ListPair by (simp add: renderValueM.simps(2))
      next
        case (Array xs)
        then show ?thesis
          using guard Ref renderArray_appends[where container = container]
          by (simp add: renderValueM.simps(2))
      next
        case (DataArray xs)
        then show ?thesis
          using guard Ref renderArray_appends[where container = container]
          by (simp add: renderValueM.simps(2))
      next
        case (Object cn es)
        then show ?thesis
          using guard Ref renderObject_appends[where container = container]
          by (simp add: renderValueM.simps(2))
      qed (use guard Ref in \<open>simp_all add: renderValueM.simps(2) appendText_def appendChild_def\<close>)
    qed (use guard in
          \<open>simp_all add: renderValueM.simps(2) appendText_def appendChild_def appendHtml_def
             renderCompactMarkdown_appends[OF assms, symmetric] split: option.splits\<close>)
  qed
qed

lemma renderArrayCompact_joins:
  assumes app: "\<And>x c. rv x c = after c (rv x [])"
    and renders: "list_all2 (\<lambda>x (out, moved). rv x [] = Some (Returned out, moved)) xs renders"
    and once: "attachedOnce held renders"
    and held: "htmlElementsIn span \<subseteq> held"
  shows "renderArrayCompact rv first xs span
           = Some (Returned (span @ joinRendered first (map fst renders)), concat (map snd renders))"
  using renders once held
proof (induction xs renders arbitrary: first span held rule: list_all2_induct)
  case Nil
  show ?case by simp
next
  case (Cons x xs om renders)
  obtain out moved where om: "om = (out, moved)" by (cases om)
  let ?c = "if first then span else appendText span '', ''"
  from Cons.hyps(1) om have x: "rv x [] = Some (Returned out, moved)" by simp
  from Cons.prems(1) om have fresh: "set moved \<inter> held = {}"
    and rest: "attachedOnce (held \<union> htmlElementsIn out) renders" by simp_all
  have "htmlElementsIn ?c \<subseteq> held" using Cons.prems(2) by (simp add: appendText_def)
  with fresh have "set moved \<inter> htmlElementsIn ?c = {}" by blast
  then have keep: "detachAll moved ?c = ?c" by (rule detachAll_fresh)
  have here: "rv x ?c = Some (Returned (?c @ out), moved)"
    using app[of x ?c] x keep by simp
  have "htmlElementsIn (?c @ out) \<subseteq> held \<union> htmlElementsIn out"
    using \<open>htmlElementsIn ?c \<subseteq> held\<close> by auto
  from Cons.IH[OF rest this]
  have "renderArrayCompact rv False xs (?c @ out)
          = Some (Returned ((?c @ out) @ joinRendered False (map fst renders)), concat (map snd renders))" .
  then show ?case using here om by (simp add: appendText_def)
qed

lemma list_all2_uniform:
  fixes P :: "nat \<Rightarrow> 'a \<Rightarrow> 'b \<Rightarrow> bool"
  assumes "list_all2 (\<lambda>x y. \<exists>n. P n x y) xs ys"
    and mono: "\<And>n m x y. P n x y \<Longrightarrow> n \<le> m \<Longrightarrow> P m x y"
  shows "\<exists>N. list_all2 (P N) xs ys"
  using assms(1)
proof (induction xs ys rule: list_all2_induct)
  case Nil
  show ?case by simp
next
  case (Cons x xs y ys)
  from Cons.hyps(1) obtain n where n: "P n x y" ..
  from Cons.IH obtain N where N: "list_all2 (P N) xs ys" ..
  have here: "P (max n N) x y" by (rule mono[OF n]) simp
  have "list_all2 (P (max n N)) xs ys"
    using N by (rule list_all2_mono) (rule mono, assumption, simp)
  with here have "list_all2 (P (max n N)) (x # xs) (y # ys)" by simp
  then show ?case ..
qed

text \<open>
  The \<^verbatim>\<open>span\<close> of a compact list, when the same number of nested calls suffices for
  every element.
\<close>

lemma compact_list_joins:
  assumes "component \<noteq> InlineFieldLivePreviewComponent"
    and "h a = Array xs \<or> h a = DataArray xs"
    and "xs \<noteq> []"
    and "\<not> maxRecursiveRenderDepth settings < depth"
    and "list_all2
           (\<lambda>x (out, moved).
              renderValueM n H h x [] originFile component settings False CtxList (depth + 1)
                = Some (Returned out, moved))
           xs renders"
    and "attachedOnce {} renders"
  shows "renderValue (Suc n) H h (Ref a) container originFile component settings False ctx depth
           = Some (Returned (detachAll (concat (map snd renders)) container @
               [Element ''span'' [''dataview'', ''dataview-result-list-span''] []
                  (joinRendered True (map fst renders))]))"
proof -
  have "renderArrayCompact
          (\<lambda>child el. renderValueM n H h child el originFile component settings False CtxList (depth + 1))
          True xs []
        = Some (Returned ([] @ joinRendered True (map fst renders)), concat (map snd renders))"
    by (rule renderArrayCompact_joins[where held = "{}"])
      (rule renderValueM_appends[OF assms(1)], rule assms(5), rule assms(6),
       simp add: htmlElementsIn_def)
  then show ?thesis
    using assms(2,3,4)
    by (auto simp add: renderValue_def renderValueM.simps(2) renderArray_def appendChild_def
          createEl_def)
qed

lemma joinRendered_three:
  "joinRendered True [a, b, c] = a @ [TextNode '', ''] @ b @ [TextNode '', ''] @ c"
  by simp

section \<open>The example heap and hosts\<close>

lemma exampleHeap_simps:
  "exampleHeap 0 = Array [Ref 0]"
  "exampleHeap 1 = Array [String ''a'', String ''b'', String ''c'']"
  "exampleHeap (Suc 0) = Array [String ''a'', String ''b'', String ''c'']"
  "exampleHeap 2 = ListPair (String ''k'') (Number ''5'')"
  "exampleHeap 3 = ExternalLink ''https://x'' None"
  "exampleHeap 4 = Object (Some ''Foo'') [(''self'', Ref 4)]"
  "exampleHeap 5 = Object (Some ''Object'') []"
  "exampleHeap 6 = UnknownWidget ''chart''"
  "exampleHeap 7 = DataArray []"
  "exampleHeap 8 = Object (Some ''Foo'') []"
  "exampleHeap 9 = Object (Some []) [(''x'', String ''a'')]"
  "exampleHeap 10 = Array [Html 7, Html 7]"
  "exampleHeap 11 = Array [Html 7, String ''b'', Html 8]"
  "exampleHeap 12 = ExternalLink ''https://x'' (Some [])"
  by (simp_all add: exampleHeap_def)

lemma wf_exampleHeap: "wf (pairNesting exampleHeap field)"
proof -
  have "pairNesting exampleHeap field = {}"
    by (auto simp: pairNesting_def exampleHeap_def split: if_splits)
  then show ?thesis by simp
qed


lemma parts_scalar:
  assumes "\<forall>a. field \<noteq> Ref a"
  shows "parts h field = {field}"
proof
  show "parts h field \<subseteq> {field}"
  proof
    fix v
    assume "v \<in> parts h field"
    then show "v \<in> {field}"
      by (induction rule: parts.induct) (use assms in auto)
  qed
  show "{field} \<subseteq> parts h field" by (simp add: parts.self)
qed

lemma wf_scalar: "\<forall>a. field \<noteq> Ref a \<Longrightarrow> wf (pairNesting h field)"
proof -
  assume "\<forall>a. field \<noteq> Ref a"
  then have "pairNesting h field = {}"
    by (auto simp add: pairNesting_def parts_scalar)
  then show ?thesis by simp
qed


lemma paragraphHost_string_returns:
  "renderValueM n paragraphHost h (String s) container originFile component settings expandList
     context depth \<noteq> Some (Threw e el, m)"
  by (cases n)
    (simp_all add: renderValueM.simps(2) renderCompactMarkdown_def paragraphHost_def
       split: option.splits)

section \<open>The claims\<close>

text \<open>
  Claim C1. A call at a depth greater than \<^verbatim>\<open>settings.maxRecursiveRenderDepth\<close>
  appends the text \<^verbatim>\<open>...\<close> and returns, for every value and on every heap: one call
  suffices, so nothing is dispatched on and nothing is rendered below. Every render call has
  an outcome, also on composites that contain themselves, provided the value holds no list
  pair that reaches itself through keys and values of list pairs alone (a list pair renders
  its key and value at its own depth).
\<close>

theorem depth_guard_bounds_rendering:
  "(\<forall>n value el cx d. maxRecursiveRenderDepth settings < d \<longrightarrow>
       renderValue (Suc n) H h value el originFile component settings expandList cx d
         = Some (Returned (el @ [TextNode ''...''])))
   \<and> (wf (pairNesting h field) \<longrightarrow>
        (\<exists>n r. renderValue n H h field container originFile component settings expandList ctx depth
                  = Some r))"
proof -
  have "wf (pairNesting h field) \<longrightarrow>
        (\<exists>n r. renderValue n H h field container originFile component settings expandList ctx depth
                  = Some r)"
    using renderValue_completes by blast
  then show ?thesis by (simp add: renderValue_guard)
qed

theorem depth_guard_bounds_rendering_witness:
  "maxRecursiveRenderDepth exampleSettings < 5
   \<and> renderValue (Suc 0) paragraphHost selfPairHeap (Ref 0) [] ''note.md'' OtherComponent
        exampleSettings False CtxList 5 = Some (Returned ([] @ [TextNode ''...'']))
   \<and> renderValue (Suc 0) paragraphHost exampleHeap (Ref 0) [] ''note.md'' OtherComponent
        exampleSettings False CtxList 5 = Some (Returned ([] @ [TextNode ''...'']))
   \<and> wf (pairNesting exampleHeap (Ref 0))
   \<and> (\<exists>n r. renderValue n paragraphHost exampleHeap (Ref 0) [] ''note.md'' OtherComponent
                exampleSettings False CtxRoot 0 = Some r)
   \<and> wf (pairNesting selfPairHeap (String ''a''))
   \<and> (\<exists>n r. renderValue n paragraphHost selfPairHeap (String ''a'') [] ''note.md'' OtherComponent
                exampleSettings False CtxRoot 0 = Some r)"
proof -
  have scalar: "wf (pairNesting selfPairHeap (String ''a''))" by (rule wf_scalar) simp
  show ?thesis
    using wf_exampleHeap[of "Ref 0"] scalar
      depth_guard_bounds_rendering[where settings = exampleSettings and h = exampleHeap
        and H = paragraphHost and originFile = "''note.md''" and component = OtherComponent
        and expandList = False and field = "Ref 0" and container = "[]" and ctx = CtxRoot and depth = 0]
      depth_guard_bounds_rendering[where settings = exampleSettings and h = selfPairHeap
        and H = paragraphHost and originFile = "''note.md''" and component = OtherComponent
        and expandList = False and field = "String ''a''" and container = "[]" and ctx = CtxRoot
        and depth = 0]
    by (simp add: exampleSettings_def)
qed

text \<open>
  A list pair that is its own key and a list pair that is its own value, rendered at depth 0
  with a bound of 4: no number of nested calls gives an outcome.
\<close>

theorem self_referential_pair_never_returns:
  "selfPairHeap 0 = ListPair (Ref 0) Null
   \<and> \<not> (\<exists>n r. renderValue n paragraphHost selfPairHeap (Ref 0) [] ''note.md'' OtherComponent
                  exampleSettings False CtxRoot 0 = Some r)
   \<and> selfPairHeap 1 = ListPair (String ''k'') (Ref 1)
   \<and> \<not> (\<exists>n r. renderValue n paragraphHost selfPairHeap (Ref 1) [] ''note.md'' OtherComponent
                  exampleSettings False CtxRoot 0 = Some r)"
proof -
  have h: "selfPairHeap 0 = ListPair (Ref 0) Null" by (simp add: selfPairHeap_def)
  have h': "selfPairHeap 1 = ListPair (String ''k'') (Ref 1)" by (simp add: selfPairHeap_def)
  have g: "\<not> maxRecursiveRenderDepth exampleSettings < 0" by (simp add: exampleSettings_def)
  have never: "renderValueM n paragraphHost selfPairHeap (Ref 1) [] ''note.md'' OtherComponent
                  exampleSettings False CtxRoot 0 = None" for n
    by (rule never_returns_self_val[where h = selfPairHeap and a = 1 and key = "String ''k''", OF h' g])
      (rule paragraphHost_string_returns)
  show ?thesis
    using never_returns_self_key[where h = selfPairHeap and a = 0, OF h g] h h' never
    by (simp add: renderValue_def)
qed

text \<open>
  Claim C2. An object whose \<^verbatim>\<open>constructor.name\<close> is present (a non-empty string, as
  the truthiness test of line 162 has it) and is not \<^verbatim>\<open>Object\<close> renders as the text
  \<^verbatim>\<open><TypeName>\<close>, in compact and in expanded mode, whatever its fields hold: one call
  suffices, and the branch never consults the recursive call. The statement is about a call
  that passes the depth guard of claim C1.
\<close>

theorem foreign_object_is_opaque:
  assumes "h a = Object (Some name) entries"
    and "name \<noteq> []"
    and "name \<noteq> ''Object''"
    and "\<not> maxRecursiveRenderDepth settings < depth"
  shows "renderValue (Suc n) H h (Ref a) container originFile component settings expandList ctx depth
           = Some (Returned (container @ [TextNode (''<'' @ name @ ''>'')]))
         \<and> (\<forall>rv. renderObject rv (Some name) entries container expandList
                    = Some (Returned (container @ [TextNode (''<'' @ name @ ''>'')]), []))"
  using assms by (simp add: renderValue_def renderValueM.simps(2) renderObject_def appendText_def)

theorem foreign_object_is_opaque_witness:
  "exampleHeap 4 = Object (Some ''Foo'') [(''self'', Ref 4)]
   \<and> ''Foo'' \<noteq> [] \<and> ''Foo'' \<noteq> ''Object''
   \<and> \<not> maxRecursiveRenderDepth exampleSettings < 0
   \<and> renderValue (Suc 0) paragraphHost exampleHeap (Ref 4) [] ''note.md'' OtherComponent
        exampleSettings True CtxRoot 0 = Some (Returned [TextNode ''<Foo>''])
   \<and> renderValue (Suc 0) paragraphHost exampleHeap (Ref 4) [] ''note.md'' OtherComponent
        exampleSettings False CtxRoot 0 = Some (Returned [TextNode ''<Foo>''])"
  using foreign_object_is_opaque[where h = exampleHeap and a = 4 and name = "''Foo''"
      and entries = "[(''self'', Ref 4)]" and settings = exampleSettings and depth = 0 and n = 0
      and H = paragraphHost and container = "[]" and originFile = "''note.md''"
      and component = OtherComponent and expandList = True and ctx = CtxRoot]
    foreign_object_is_opaque[where h = exampleHeap and a = 4 and name = "''Foo''"
      and entries = "[(''self'', Ref 4)]" and settings = exampleSettings and depth = 0 and n = 0
      and H = paragraphHost and container = "[]" and originFile = "''note.md''"
      and component = OtherComponent and expandList = False and ctx = CtxRoot]
  by (simp add: exampleHeap_simps exampleSettings_def)

text \<open>
  Beyond the bound the same object renders as \<^verbatim>\<open>...\<close>. The fields of an instance of a
  class without a name are rendered: its constructor name is the empty string, which the
  test of line 162 takes as absent.
\<close>

theorem foreign_object_beyond_bound_or_unnamed:
  "exampleHeap 4 = Object (Some ''Foo'') [(''self'', Ref 4)]
   \<and> maxRecursiveRenderDepth exampleSettings < 5
   \<and> renderValue (Suc 0) paragraphHost exampleHeap (Ref 4) [] ''note.md'' OtherComponent
        exampleSettings False CtxList 5 = Some (Returned [TextNode ''...''])
   \<and> exampleHeap 9 = Object (Some []) [(''x'', String ''a'')]
   \<and> renderValue (Suc (Suc 0)) paragraphHost exampleHeap (Ref 9) [] ''note.md'' OtherComponent
        exampleSettings False CtxRoot 0
       = Some (Returned
           [Element ''span'' [''dataview'', ''dataview-result-object-span''] []
              [TextNode ''x: '', Element ''span'' [] [] [TextNode ''a'']]])"
  by (simp add: renderValue_def renderValueM.simps(2) exampleHeap_simps exampleSettings_def
        renderCompactMarkdown_def renderObject_def paragraphHost_def querySelector_p_def
        children_def hoistParagraph_def appendChild_def appendText_def createSpan_def createEl_def)

text \<open>
  Claim C3. Past the depth guard, in compact mode and with a component other than the live
  preview's, take a non-empty array or data array whose elements' renders return, none of
  them attaching an element from before the call that the render of an earlier element
  holds. Its render returns, having appended one \<^verbatim>\<open>span\<close> with the classes
  \<^verbatim>\<open>dataview\<close> and \<^verbatim>\<open>dataview-result-list-span\<close>, which holds what the elements
  render to on their own at \<^verbatim>\<open>depth + 1\<close> in context \<^verbatim>\<open>list\<close>, in order, with the
  text \<^verbatim>\<open>", "\<close> before every element but the first (for three elements
  \<open>a @ [TextNode '', ''] @ b @ [TextNode '', ''] @ c\<close>). The elements from before the call
  that the renders attach are in the \<^verbatim>\<open>span\<close> and no longer among what the container
  held.
\<close>

theorem compact_list_on_generic_surface:
  assumes "component \<noteq> InlineFieldLivePreviewComponent"
    and "h a = Array xs \<or> h a = DataArray xs"
    and "xs \<noteq> []"
    and "\<not> maxRecursiveRenderDepth settings < depth"
    and "list_all2
           (\<lambda>x (out, moved). \<exists>n.
              renderValueM n H h x [] originFile component settings False CtxList (depth + 1)
                = Some (Returned out, moved))
           xs renders"
    and "attachedOnce {} renders"
  shows "\<exists>N. \<forall>n \<ge> N.
           renderValue n H h (Ref a) container originFile component settings False ctx depth
             = Some (Returned (detachAll (concat (map snd renders)) container @
                 [Element ''span'' [''dataview'', ''dataview-result-list-span''] []
                    (joinRendered True (map fst renders))]))"
proof -
  let ?P = "\<lambda>n x om. renderValueM n H h x [] originFile component settings False CtxList (depth + 1)
                = Some (Returned (fst om), snd om)"
  have "list_all2 (\<lambda>x om. \<exists>n. ?P n x om) xs renders"
    using assms(5) by (rule list_all2_mono) auto
  then have "\<exists>N. list_all2 (?P N) xs renders"
    by (rule list_all2_uniform) (rule renderValueM_mono)
  then obtain N where N: "list_all2 (?P N) xs renders" ..
  have "renderValue n H h (Ref a) container originFile component settings False ctx depth
             = Some (Returned (detachAll (concat (map snd renders)) container @
                 [Element ''span'' [''dataview'', ''dataview-result-list-span''] []
                    (joinRendered True (map fst renders))]))"
    if "Suc N \<le> n" for n
  proof -
    from that obtain k where n: "n = Suc k" and k: "N \<le> k" by (cases n) auto
    have "list_all2 (?P k) xs renders"
      using N by (rule list_all2_mono) (rule renderValueM_mono, assumption, rule k)
    then have "list_all2
           (\<lambda>x (out, moved).
              renderValueM k H h x [] originFile component settings False CtxList (depth + 1)
                = Some (Returned out, moved))
           xs renders"
      by (rule list_all2_mono) auto
    from compact_list_joins[OF assms(1,2,3,4) this assms(6)] n show ?thesis by simp
  qed
  then show ?thesis by blast
qed

theorem compact_list_on_generic_surface_witness:
  "OtherComponent \<noteq> InlineFieldLivePreviewComponent
   \<and> exampleHeap 1 = Array [String ''a'', String ''b'', String ''c'']
   \<and> [String ''a'', String ''b'', String ''c''] \<noteq> ([] :: string Literal list)
   \<and> \<not> maxRecursiveRenderDepth exampleSettings < 0
   \<and> renderValueM (Suc 0) paragraphHost exampleHeap (String ''a'') [] ''note.md'' OtherComponent
        exampleSettings False CtxList (0 + 1)
       = Some (Returned [Element ''span'' [] [] [TextNode ''a'']], [])
   \<and> renderValueM (Suc 0) paragraphHost exampleHeap (String ''b'') [] ''note.md'' OtherComponent
        exampleSettings False CtxList (0 + 1)
       = Some (Returned [Element ''span'' [] [] [TextNode ''b'']], [])
   \<and> renderValueM (Suc 0) paragraphHost exampleHeap (String ''c'') [] ''note.md'' OtherComponent
        exampleSettings False CtxList (0 + 1)
       = Some (Returned [Element ''span'' [] [] [TextNode ''c'']], [])
   \<and> attachedOnce {}
        [([Element ''span'' [] [] [TextNode ''a'']], []), ([Element ''span'' [] [] [TextNode ''b'']], []),
         ([Element ''span'' [] [] [TextNode ''c'']], [])]
   \<and> (\<exists>N. \<forall>n \<ge> N.
          renderValue n paragraphHost exampleHeap (Ref 1) [] ''note.md'' OtherComponent
            exampleSettings False CtxRoot 0
           = Some (Returned
               [Element ''span'' [''dataview'', ''dataview-result-list-span''] []
                  [Element ''span'' [] [] [TextNode ''a''], TextNode '', '',
                   Element ''span'' [] [] [TextNode ''b''], TextNode '', '',
                   Element ''span'' [] [] [TextNode ''c'']]]))
   \<and> renderValue (Suc (Suc 0)) paragraphHost exampleHeap (Ref 1) [] ''note.md'' OtherComponent
        exampleSettings False CtxRoot 0
       = Some (Returned
           [Element ''span'' [''dataview'', ''dataview-result-list-span''] []
              [Element ''span'' [] [] [TextNode ''a''], TextNode '', '',
               Element ''span'' [] [] [TextNode ''b''], TextNode '', '',
               Element ''span'' [] [] [TextNode ''c'']]])
   \<and> exampleHeap 11 = Array [Html 7, String ''b'', Html 8]
   \<and> renderValueM (Suc 0) paragraphHost exampleHeap (Html 7) [] ''note.md'' OtherComponent
        exampleSettings False CtxList (0 + 1) = Some (Returned [HtmlElement 7], [7])
   \<and> renderValueM (Suc 0) paragraphHost exampleHeap (Html 8) [] ''note.md'' OtherComponent
        exampleSettings False CtxList (0 + 1) = Some (Returned [HtmlElement 8], [8])
   \<and> attachedOnce {}
        [([HtmlElement 7], [7]), ([Element ''span'' [] [] [TextNode ''b'']], []), ([HtmlElement 8], [8])]
   \<and> (\<exists>N. \<forall>n \<ge> N.
          renderValue n paragraphHost exampleHeap (Ref 11) [HtmlElement 8, TextNode ''x'']
            ''note.md'' OtherComponent exampleSettings False CtxRoot 0
           = Some (Returned
               [TextNode ''x'',
                Element ''span'' [''dataview'', ''dataview-result-list-span''] []
                  [HtmlElement 7, TextNode '', '', Element ''span'' [] [] [TextNode ''b''],
                   TextNode '', '', HtmlElement 8]]))
   \<and> renderValue (Suc (Suc 0)) paragraphHost exampleHeap (Ref 11) [HtmlElement 8, TextNode ''x'']
        ''note.md'' OtherComponent exampleSettings False CtxRoot 0
       = Some (Returned
           [TextNode ''x'',
            Element ''span'' [''dataview'', ''dataview-result-list-span''] []
              [HtmlElement 7, TextNode '', '', Element ''span'' [] [] [TextNode ''b''],
               TextNode '', '', HtmlElement 8]])"
proof -
  have each: "renderValueM (Suc 0) paragraphHost exampleHeap (String s) [] ''note.md'' OtherComponent
        exampleSettings False CtxList (0 + 1) = Some (Returned [Element ''span'' [] [] [TextNode s]], [])"
    for s
    by (simp add: renderValueM.simps(2) exampleSettings_def renderCompactMarkdown_def paragraphHost_def
          querySelector_p_def children_def hoistParagraph_def appendChild_def createSpan_def createEl_def)
  have html: "renderValueM (Suc 0) paragraphHost exampleHeap (Html (Suc i)) [] ''note.md'' OtherComponent
        exampleSettings False CtxList (0 + 1) = Some (Returned [HtmlElement (Suc i)], [Suc i])"
    for i
    by (simp add: renderValueM.simps(2) exampleSettings_def appendHtml_def paragraphHost_def
          appendChild_def)
  have html7: "renderValueM (Suc 0) paragraphHost exampleHeap (Html 7) [] ''note.md'' OtherComponent
        exampleSettings False CtxList (0 + 1) = Some (Returned [HtmlElement 7], [7])"
    using html[of 6] by simp
  have html8: "renderValueM (Suc 0) paragraphHost exampleHeap (Html 8) [] ''note.md'' OtherComponent
        exampleSettings False CtxList (0 + 1) = Some (Returned [HtmlElement 8], [8])"
    using html[of 7] by simp
  have strings: "list_all2
           (\<lambda>x (out, moved). \<exists>n.
              renderValueM n paragraphHost exampleHeap x [] ''note.md'' OtherComponent
                exampleSettings False CtxList (0 + 1) = Some (Returned out, moved))
           [String ''a'', String ''b'', String ''c'']
           [([Element ''span'' [] [] [TextNode ''a'']], []), ([Element ''span'' [] [] [TextNode ''b'']], []),
            ([Element ''span'' [] [] [TextNode ''c'']], [])]"
    using each by (simp del: One_nat_def) blast
  have mixed: "list_all2
           (\<lambda>x (out, moved). \<exists>n.
              renderValueM n paragraphHost exampleHeap x [] ''note.md'' OtherComponent
                exampleSettings False CtxList (0 + 1) = Some (Returned out, moved))
           [Html 7, String ''b'', Html 8]
           [([HtmlElement 7], [7]), ([Element ''span'' [] [] [TextNode ''b'']], []), ([HtmlElement 8], [8])]"
    using each html7 html8 by (simp del: One_nat_def) blast
  have once: "attachedOnce {}
        [([Element ''span'' [] [] [TextNode ''a'']], []), ([Element ''span'' [] [] [TextNode ''b'']], []),
         ([Element ''span'' [] [] [TextNode ''c'']], [])]"
    by (simp add: htmlElementsIn_def)
  have once': "attachedOnce {}
        [([HtmlElement 7], [7]), ([Element ''span'' [] [] [TextNode ''b'']], []), ([HtmlElement 8], [8])]"
    by (simp add: htmlElementsIn_def)
  have guard: "\<not> maxRecursiveRenderDepth exampleSettings < 0" by (simp add: exampleSettings_def)
  have heap: "exampleHeap 1 = Array [String ''a'', String ''b'', String ''c'']
                \<or> exampleHeap 1 = DataArray [String ''a'', String ''b'', String ''c'']"
    by (simp add: exampleHeap_simps)
  have heap': "exampleHeap 11 = Array [Html 7, String ''b'', Html 8]
                \<or> exampleHeap 11 = DataArray [Html 7, String ''b'', Html 8]"
    by (simp add: exampleHeap_simps)
  have two: "renderValue (Suc (Suc 0)) paragraphHost exampleHeap (Ref 1) [] ''note.md'' OtherComponent
        exampleSettings False CtxRoot 0
       = Some (Returned
           [Element ''span'' [''dataview'', ''dataview-result-list-span''] []
              [Element ''span'' [] [] [TextNode ''a''], TextNode '', '',
               Element ''span'' [] [] [TextNode ''b''], TextNode '', '',
               Element ''span'' [] [] [TextNode ''c'']]])
   \<and> renderValue (Suc (Suc 0)) paragraphHost exampleHeap (Ref 11) [HtmlElement 8, TextNode ''x'']
        ''note.md'' OtherComponent exampleSettings False CtxRoot 0
       = Some (Returned
           [TextNode ''x'',
            Element ''span'' [''dataview'', ''dataview-result-list-span''] []
              [HtmlElement 7, TextNode '', '', Element ''span'' [] [] [TextNode ''b''],
               TextNode '', '', HtmlElement 8]])"
    by (simp add: renderValue_def renderValueM.simps(2) exampleHeap_simps exampleSettings_def
          renderCompactMarkdown_def renderArray_def paragraphHost_def querySelector_p_def
          children_def hoistParagraph_def appendHtml_def detachAll_def appendChild_def
          appendText_def createSpan_def createEl_def)
  from compact_list_on_generic_surface[where component = OtherComponent and h = exampleHeap and a = 1
      and container = "[]" and ctx = CtxRoot, OF _ heap _ guard strings once]
    compact_list_on_generic_surface[where component = OtherComponent and h = exampleHeap and a = 11
      and container = "[HtmlElement 8, TextNode ''x'']" and ctx = CtxRoot, OF _ heap' _ guard mixed once']
  show ?thesis
    using each html7 html8 once once' guard two by (simp add: exampleHeap_simps detachAll_def)
qed

text \<open>
  The array \<^verbatim>\<open>["a", "b", "c"]\<close> beyond the bound renders as \<^verbatim>\<open>...\<close>. With the live
  preview's component every element's \<^verbatim>\<open>renderCompactMarkdown\<close> replaces the children of
  the \<^verbatim>\<open>span\<close> (lines 23 and 50): only the last element is left, and no separator.
  When the host's markup renderer throws on \<^verbatim>\<open>b\<close>, the call throws and the \<^verbatim>\<open>span\<close>
  holds the render of \<^verbatim>\<open>a\<close>, a separator and an empty \<^verbatim>\<open>span\<close>. An array that
  holds the same element of the document twice renders each of the two to that element, and
  the \<^verbatim>\<open>span\<close> holds a separator and then the element, once: the second
  \<^verbatim>\<open>appendChild\<close> moves it.
\<close>

theorem compact_list_beyond_bound_or_in_live_preview:
  "exampleHeap 1 = Array [String ''a'', String ''b'', String ''c'']
   \<and> maxRecursiveRenderDepth exampleSettings < 5
   \<and> renderValue (Suc (Suc 0)) paragraphHost exampleHeap (Ref 1) [] ''note.md''
        OtherComponent exampleSettings False CtxList 5
       = Some (Returned [TextNode ''...''])
   \<and> renderValue (Suc (Suc 0)) paragraphHost exampleHeap (Ref 1) [] ''note.md''
        InlineFieldLivePreviewComponent exampleSettings False CtxRoot 0
       = Some (Returned
           [Element ''span'' [''dataview'', ''dataview-result-list-span''] [] [TextNode ''c'']])
   \<and> renderValue (Suc (Suc 0)) failingOnBHost exampleHeap (Ref 1) [] ''note.md''
        OtherComponent exampleSettings False CtxRoot 0
       = Some (Threw (HostError ''b'')
           [Element ''span'' [''dataview'', ''dataview-result-list-span''] []
              [Element ''span'' [] [] [TextNode ''a''], TextNode '', '', Element ''span'' [] [] []]])
   \<and> exampleHeap 10 = Array [Html 7, Html 7]
   \<and> renderValue (Suc 0) paragraphHost exampleHeap (Html 7) [] ''note.md''
        OtherComponent exampleSettings False CtxList 1
       = Some (Returned [HtmlElement 7])
   \<and> renderValue (Suc (Suc 0)) paragraphHost exampleHeap (Ref 10) [] ''note.md''
        OtherComponent exampleSettings False CtxRoot 0
       = Some (Returned
           [Element ''span'' [''dataview'', ''dataview-result-list-span''] []
              [TextNode '', '', HtmlElement 7]])"
  by (simp add: renderValue_def renderValueM.simps(2) exampleHeap_simps exampleSettings_def
        renderCompactMarkdown_def renderArray_def paragraphHost_def failingOnBHost_def
        querySelector_p_def children_def hoistParagraph_def appendHtml_def detachAll_def
        appendChild_def appendText_def createSpan_def createEl_def)

text \<open>
  Claim C4. Rendering \<^verbatim>\<open>null\<close> is rendering the string \<^verbatim>\<open>settings.renderNullAs\<close>,
  for every argument; past the depth guard both hand that text to
  \<^verbatim>\<open>renderCompactMarkdown\<close>.
\<close>

theorem null_renders_as_its_markup:
  "renderValue n H h Null container originFile component settings expandList ctx depth
     = renderValue n H h (String (renderNullAs settings)) container originFile component settings
         expandList ctx depth
   \<and> (\<not> maxRecursiveRenderDepth settings < depth \<longrightarrow>
        renderValue (Suc n) H h Null container originFile component settings expandList ctx depth
          = Some (renderCompactMarkdown H (renderNullAs settings) container originFile component))"
  by (cases n) (simp_all add: renderValue_def renderValueM.simps(2))

theorem null_renders_as_its_markup_witness:
  "\<not> maxRecursiveRenderDepth exampleSettings < 0
   \<and> renderValue (Suc 0) paragraphHost exampleHeap Null [] ''note.md'' OtherComponent
         exampleSettings False CtxRoot 0
       = Some (Returned [Element ''span'' [] [] [TextNode ''-'']])
   \<and> renderValue (Suc 0) paragraphHost exampleHeap (String ''-'') [] ''note.md'' OtherComponent
         exampleSettings False CtxRoot 0
       = Some (Returned [Element ''span'' [] [] [TextNode ''-'']])"
  using null_renders_as_its_markup[where n = "Suc 0" and H = paragraphHost and h = exampleHeap
      and container = "[]" and originFile = "''note.md''" and component = OtherComponent
      and settings = exampleSettings and expandList = False and ctx = CtxRoot and depth = 0]
  by (simp add: renderValue_def renderValueM.simps(2) exampleSettings_def renderCompactMarkdown_def
        paragraphHost_def querySelector_p_def children_def hoistParagraph_def appendChild_def
        createSpan_def createEl_def)

text \<open>
  Claim C5. Past the depth guard, rendering a list pair is rendering its key, appending the
  text \<^verbatim>\<open>": "\<close> and rendering its value, all into the same container, with the
  depth and the context of the call on the pair; the pair has an outcome exactly when that
  sequence has, and then the same one.
\<close>

theorem list_pair_is_transparent:
  assumes "h a = ListPair key val"
    and "\<not> maxRecursiveRenderDepth settings < depth"
  shows "renderValue (Suc n) H h (Ref a) container originFile component settings expandList ctx depth
           = andThen
               (renderValue n H h key container originFile component settings expandList ctx depth)
               (\<lambda>el. renderValue n H h val (el @ [TextNode '': '']) originFile component settings
                       expandList ctx depth)
         \<and> ((\<exists>n. renderValue n H h (Ref a) container originFile component settings expandList ctx depth
                    = Some r)
              = (\<exists>n. andThen
                    (renderValue n H h key container originFile component settings expandList ctx depth)
                    (\<lambda>el. renderValue n H h val (el @ [TextNode '': '']) originFile component settings
                            expandList ctx depth) = Some r))"
proof -
  have step: "renderValue (Suc n) H h (Ref a) container originFile component settings expandList ctx depth
           = andThen
               (renderValue n H h key container originFile component settings expandList ctx depth)
               (\<lambda>el. renderValue n H h val (el @ [TextNode '': '']) originFile component settings
                       expandList ctx depth)" for n
    using assms by (rule renderValue_ListPair)
  have "\<exists>m. andThen
                    (renderValue m H h key container originFile component settings expandList ctx depth)
                    (\<lambda>el. renderValue m H h val (el @ [TextNode '': '']) originFile component settings
                            expandList ctx depth) = Some r"
    if "renderValue n H h (Ref a) container originFile component settings expandList ctx depth = Some r"
    for n
  proof (cases n)
    case 0
    with that show ?thesis by simp
  next
    case (Suc m)
    with that step[of m] show ?thesis by auto
  qed
  moreover have "\<exists>m. renderValue m H h (Ref a) container originFile component settings expandList ctx depth = Some r"
    if "andThen
                    (renderValue n H h key container originFile component settings expandList ctx depth)
                    (\<lambda>el. renderValue n H h val (el @ [TextNode '': '']) originFile component settings
                            expandList ctx depth) = Some r"
    for n
    using that step[of n] by metis
  ultimately show ?thesis using step[of n] by blast
qed

theorem list_pair_is_transparent_witness:
  "exampleHeap 2 = ListPair (String ''k'') (Number ''5'')
   \<and> \<not> maxRecursiveRenderDepth exampleSettings < 0
   \<and> renderValue (Suc (Suc 0)) paragraphHost exampleHeap (Ref 2) [] ''note.md'' OtherComponent
        exampleSettings False CtxRoot 0
      = Some (Returned [Element ''span'' [] [] [TextNode ''k''], TextNode '': '',
                        Element ''span'' [] [] [TextNode ''5'']])
   \<and> renderValue (Suc 0) paragraphHost exampleHeap (String ''k'') [] ''note.md'' OtherComponent
        exampleSettings False CtxRoot 0
      = Some (Returned [Element ''span'' [] [] [TextNode ''k'']])
   \<and> renderValue (Suc 0) paragraphHost exampleHeap (Number ''5'')
        [Element ''span'' [] [] [TextNode ''k''], TextNode '': ''] ''note.md'' OtherComponent
        exampleSettings False CtxRoot 0
      = Some (Returned [Element ''span'' [] [] [TextNode ''k''], TextNode '': '',
                        Element ''span'' [] [] [TextNode ''5'']])"
  using list_pair_is_transparent[where h = exampleHeap and a = 2 and key = "String ''k''"
      and val = "Number ''5''" and settings = exampleSettings and depth = 0 and n = "Suc 0"
      and H = paragraphHost and container = "[]" and originFile = "''note.md''"
      and component = OtherComponent and expandList = False and ctx = CtxRoot]
  by (simp add: renderValue_def renderValueM.simps(2) exampleHeap_simps exampleSettings_def
        renderCompactMarkdown_def paragraphHost_def querySelector_p_def children_def
        hoistParagraph_def appendChild_def appendText_def createSpan_def createEl_def)

text \<open>
  Beyond the bound the list pair renders as \<^verbatim>\<open>...\<close>, while rendering its key, the text
  \<^verbatim>\<open>": "\<close> and its value at that depth gives \<^verbatim>\<open>...\<close>, \<^verbatim>\<open>": "\<close>, \<^verbatim>\<open>...\<close>.
\<close>

theorem list_pair_beyond_bound:
  "exampleHeap 2 = ListPair (String ''k'') (Number ''5'')
   \<and> maxRecursiveRenderDepth exampleSettings < 5
   \<and> renderValue (Suc (Suc 0)) paragraphHost exampleHeap (Ref 2) [] ''note.md'' OtherComponent
        exampleSettings False CtxList 5 = Some (Returned [TextNode ''...''])
   \<and> andThen
        (renderValue (Suc 0) paragraphHost exampleHeap (String ''k'') [] ''note.md'' OtherComponent
           exampleSettings False CtxList 5)
        (\<lambda>el. renderValue (Suc 0) paragraphHost exampleHeap (Number ''5'') (el @ [TextNode '': ''])
                ''note.md'' OtherComponent exampleSettings False CtxList 5)
       = Some (Returned [TextNode ''...'', TextNode '': '', TextNode ''...''])"
  by (simp add: renderValue_def renderValueM.simps(2) exampleHeap_simps exampleSettings_def
        appendText_def)

text \<open>
  Claim C6. Past the depth guard, an external link appends one \<^verbatim>\<open>a\<close> element with
  class \<^verbatim>\<open>external-link\<close>, \<^verbatim>\<open>rel="noopener"\<close>, \<^verbatim>\<open>target="_blank"\<close> and the url
  as \<^verbatim>\<open>href\<close>. Its text is the display text if there is one (the empty string is one),
  else the url: the element holds one text node with that text, and no node when the text
  is empty.
\<close>

theorem external_link_anchor:
  assumes "h a = ExternalLink url display"
    and "\<not> maxRecursiveRenderDepth settings < depth"
  shows "renderValue (Suc n) H h (Ref a) container originFile component settings expandList ctx depth
           = Some (Returned (container @
               [Element ''a'' [''external-link'']
                  [(''rel'', ''noopener''), (''target'', ''_blank''), (''href'', url)]
                  (let text = (case display of Some d \<Rightarrow> d | None \<Rightarrow> url)
                   in if text = [] then [] else [TextNode text])]))"
  using assms
  by (simp add: renderValue_def renderValueM.simps(2) externalLinkElem_def setTextContent_def
        appendChild_def)

theorem external_link_anchor_witness:
  "exampleHeap 3 = ExternalLink ''https://x'' None
   \<and> \<not> maxRecursiveRenderDepth exampleSettings < 0
   \<and> renderValue (Suc 0) paragraphHost exampleHeap (Ref 3) [] ''note.md'' OtherComponent
        exampleSettings False CtxRoot 0
      = Some (Returned
          [Element ''a'' [''external-link'']
             [(''rel'', ''noopener''), (''target'', ''_blank''), (''href'', ''https://x'')]
             [TextNode ''https://x'']])
   \<and> exampleHeap 12 = ExternalLink ''https://x'' (Some [])
   \<and> renderValue (Suc 0) paragraphHost exampleHeap (Ref 12) [] ''note.md'' OtherComponent
        exampleSettings False CtxRoot 0
      = Some (Returned
          [Element ''a'' [''external-link'']
             [(''rel'', ''noopener''), (''target'', ''_blank''), (''href'', ''https://x'')]
             []])"
  using external_link_anchor[where h = exampleHeap and a = 3 and url = "''https://x''"
      and display = None and settings = exampleSettings and depth = 0 and n = 0
      and H = paragraphHost and container = "[]" and originFile = "''note.md''"
      and component = OtherComponent and expandList = False and ctx = CtxRoot]
    external_link_anchor[where h = exampleHeap and a = 12 and url = "''https://x''"
      and display = "Some []" and settings = exampleSettings and depth = 0 and n = 0
      and H = paragraphHost and container = "[]" and originFile = "''note.md''"
      and component = OtherComponent and expandList = False and ctx = CtxRoot]
  by (simp add: exampleHeap_simps exampleSettings_def)

text \<open>
  Beyond the bound the external link renders as \<^verbatim>\<open>...\<close>.
\<close>

theorem external_link_beyond_bound:
  "exampleHeap 3 = ExternalLink ''https://x'' None
   \<and> maxRecursiveRenderDepth exampleSettings < 5
   \<and> renderValue (Suc 0) paragraphHost exampleHeap (Ref 3) [] ''note.md'' OtherComponent
        exampleSettings False CtxList 5 = Some (Returned [TextNode ''...''])"
  by (simp add: renderValue_def renderValueM.simps(2) exampleHeap_simps exampleSettings_def
        appendText_def)

text \<open>
  Claim C7. Past the depth guard and in compact mode, an empty array or data array appends
  the text \<^verbatim>\<open><empty list>\<close> and an empty plain object (no constructor name, or the name
  \<^verbatim>\<open>Object\<close>; claim C2 covers the others) the text \<^verbatim>\<open><empty object>\<close>. One call
  suffices: nothing is rendered below and no \<^verbatim>\<open>span\<close> is created.
\<close>

theorem compact_empty_placeholders:
  assumes "\<not> maxRecursiveRenderDepth settings < depth"
  shows "(h a = Array [] \<or> h a = DataArray [] \<longrightarrow>
            renderValue (Suc n) H h (Ref a) container originFile component settings False ctx depth
              = Some (Returned (container @ [TextNode ''<empty list>''])))
         \<and> (h b = Object constructorName [] \<and> (\<not> truthy constructorName \<or> constructorName = Some ''Object'') \<longrightarrow>
            renderValue (Suc n) H h (Ref b) container originFile component settings False ctx depth
              = Some (Returned (container @ [TextNode ''<empty object>''])))"
  using assms
  by (auto simp add: renderValue_def renderValueM.simps(2) renderArray_def renderObject_def
        appendText_def)

theorem compact_empty_placeholders_witness:
  "\<not> maxRecursiveRenderDepth exampleSettings < 0
   \<and> exampleHeap 7 = DataArray []
   \<and> renderValue (Suc 0) paragraphHost exampleHeap (Ref 7) [] ''note.md'' OtherComponent
        exampleSettings False CtxRoot 0 = Some (Returned [TextNode ''<empty list>''])
   \<and> exampleHeap 5 = Object (Some ''Object'') []
   \<and> renderValue (Suc 0) paragraphHost exampleHeap (Ref 5) [] ''note.md'' OtherComponent
        exampleSettings False CtxRoot 0 = Some (Returned [TextNode ''<empty object>''])"
  using compact_empty_placeholders[where settings = exampleSettings and depth = 0 and h = exampleHeap
      and a = 7 and b = 5 and constructorName = "Some ''Object''" and n = 0
      and H = paragraphHost and container = "[]" and originFile = "''note.md''"
      and component = OtherComponent and ctx = CtxRoot]
  by (simp add: exampleHeap_simps exampleSettings_def)

text \<open>
  Beyond the bound an empty data array renders as \<^verbatim>\<open>...\<close>; an instance of a class
  \<^verbatim>\<open>Foo\<close> with no field renders as \<^verbatim>\<open><Foo>\<close>.
\<close>

theorem compact_empty_beyond_bound_or_foreign:
  "exampleHeap 7 = DataArray []
   \<and> maxRecursiveRenderDepth exampleSettings < 5
   \<and> renderValue (Suc 0) paragraphHost exampleHeap (Ref 7) [] ''note.md'' OtherComponent
        exampleSettings False CtxList 5 = Some (Returned [TextNode ''...''])
   \<and> exampleHeap 8 = Object (Some ''Foo'') []
   \<and> renderValue (Suc 0) paragraphHost exampleHeap (Ref 8) [] ''note.md'' OtherComponent
        exampleSettings False CtxRoot 0 = Some (Returned [TextNode ''<Foo>''])"
  by (simp add: renderValue_def renderValueM.simps(2) exampleHeap_simps exampleSettings_def
        appendText_def renderObject_def)

text \<open>
  Claim C8. With a component other than the live preview's, \<^verbatim>\<open>renderCompactMarkdown\<close>
  appends a \<^verbatim>\<open>span\<close> to the container and lets the host render into it; when the host
  renders one paragraph and nothing else, the \<^verbatim>\<open>span\<close> holds the paragraph's child
  nodes. When the host renders a text node and then a paragraph, the \<^verbatim>\<open>span\<close> has two
  child nodes, and the paragraph is unwrapped all the same: line 59 counts the child elements
  (\<^verbatim>\<open>children\<close>), where line 22 of the live preview's branch counts the child nodes
  (\<^verbatim>\<open>childNodes\<close>) and, on the same rendering, leaves the paragraph as it is. With a
  text node after the paragraph too, the paragraph's child nodes land after that text node.
\<close>

theorem text_beside_paragraph_is_unwrapped:
  "renderCompactMarkdown paragraphHost ''hi'' [TextNode ''x''] ''note.md'' OtherComponent
       = Returned [TextNode ''x'', Element ''span'' [] [] [TextNode ''hi'']]
   \<and> renderMarkdown looseTextHost ''hi'' [] ''note.md'' OtherComponent
       = Returned [TextNode ''a'', Element ''p'' [] [] [TextNode ''hi'']]
   \<and> length [TextNode ''a'', Element ''p'' [] [] [TextNode ''hi'']] = 2
   \<and> renderCompactMarkdown looseTextHost ''hi'' [] ''note.md'' OtherComponent
       = Returned [Element ''span'' [] [] [TextNode ''a'', TextNode ''hi'']]
   \<and> renderCompactMarkdown looseTextHost ''hi'' [] ''note.md'' OtherComponent
       \<noteq> Returned [Element ''span'' [] [] [TextNode ''a'', Element ''p'' [] [] [TextNode ''hi'']]]
   \<and> renderCompactMarkdown looseTextHost ''hi'' [] ''note.md'' InlineFieldLivePreviewComponent
       = Returned [TextNode ''a'', Element ''p'' [] [] [TextNode ''hi'']]
   \<and> renderMarkdown textAroundHost ''hi'' [] ''note.md'' OtherComponent
       = Returned [TextNode ''a'', Element ''p'' [] [] [TextNode ''hi''], TextNode ''z'']
   \<and> renderCompactMarkdown textAroundHost ''hi'' [] ''note.md'' OtherComponent
       = Returned [Element ''span'' [] [] [TextNode ''a'', TextNode ''z'', TextNode ''hi'']]"
  by (simp add: looseTextHost_def textAroundHost_def paragraphHost_def renderCompactMarkdown_def
        querySelector_p_def children_def hoistParagraph_def appendChild_def createSpan_def
        createEl_def)




text \<open>
  Claim C10. Past the depth guard and in expanded mode, an empty array, data array or plain
  object appends a \<^verbatim>\<open>ul\<close> element with no child: the emptiness tests of lines 146 and
  175 are on the compact branch only.
\<close>

theorem expanded_empty_composites:
  assumes "\<not> maxRecursiveRenderDepth settings < depth"
  shows "(h a = Array [] \<or> h a = DataArray [] \<longrightarrow>
            renderValue (Suc n) H h (Ref a) container originFile component settings True ctx depth
              = Some (Returned (container @
                  [Element ''ul''
                     [''dataview'', ''dataview-ul'',
                      if ctx = CtxList then ''dataview-result-list-ul''
                      else ''dataview-result-list-root-ul'']
                     [] []])))
         \<and> (h b = Object constructorName [] \<and> (\<not> truthy constructorName \<or> constructorName = Some ''Object'') \<longrightarrow>
            renderValue (Suc n) H h (Ref b) container originFile component settings True ctx depth
              = Some (Returned (container @
                  [Element ''ul'' [''dataview'', ''dataview-ul'', ''dataview-result-object-ul'']
                     [] []])))"
  using assms
  by (auto simp add: renderValue_def renderValueM.simps(2) renderArray_def renderObject_def
        appendChild_def createEl_def)

theorem expanded_empty_composites_witness:
  "\<not> maxRecursiveRenderDepth exampleSettings < 0
   \<and> exampleHeap 7 = DataArray []
   \<and> renderValue (Suc 0) paragraphHost exampleHeap (Ref 7) [] ''note.md'' OtherComponent
        exampleSettings True CtxRoot 0
      = Some (Returned
          [Element ''ul'' [''dataview'', ''dataview-ul'', ''dataview-result-list-root-ul''] [] []])
   \<and> exampleHeap 5 = Object (Some ''Object'') []
   \<and> renderValue (Suc 0) paragraphHost exampleHeap (Ref 5) [] ''note.md'' OtherComponent
        exampleSettings True CtxRoot 0
      = Some (Returned
          [Element ''ul'' [''dataview'', ''dataview-ul'', ''dataview-result-object-ul''] [] []])"
  using expanded_empty_composites[where settings = exampleSettings and depth = 0 and h = exampleHeap
      and a = 7 and b = 5 and constructorName = "Some ''Object''" and n = 0
      and H = paragraphHost and container = "[]" and originFile = "''note.md''"
      and component = OtherComponent and ctx = CtxRoot]
  by (simp add: exampleHeap_simps exampleSettings_def)

text \<open>
  Beyond the bound an empty data array and an empty plain object render as \<^verbatim>\<open>...\<close>
  in expanded mode too.
\<close>

theorem expanded_empty_beyond_bound:
  "exampleHeap 7 = DataArray []
   \<and> exampleHeap 5 = Object (Some ''Object'') []
   \<and> maxRecursiveRenderDepth exampleSettings < 5
   \<and> renderValue (Suc 0) paragraphHost exampleHeap (Ref 7) [] ''note.md'' OtherComponent
        exampleSettings True CtxList 5 = Some (Returned [TextNode ''...''])
   \<and> renderValue (Suc 0) paragraphHost exampleHeap (Ref 5) [] ''note.md'' OtherComponent
        exampleSettings True CtxList 5 = Some (Returned [TextNode ''...''])"
  by (simp add: renderValue_def renderValueM.simps(2) exampleHeap_simps exampleSettings_def
        appendText_def)

end
